theory Spec2Isabelle
  imports Complex_Main "HOL-Library.Log_Nat"
begin

section \<open>JavaScript values\<close>

text \<open>
  A Firestore document is schemaless: a field the code reads may be absent
  (\<open>undefined\<close>), \<open>null\<close>, or hold a value. Counters and times are
  integers (times in milliseconds since the epoch); on them \<open>None\<close> stands
  for \<open>NaN\<close>. Amounts and rates are JavaScript numbers, modelled in the next
  section.
\<close>

datatype 'a jsval = Undefined | Null | Val 'a

definition toNumber :: "'a::zero jsval \<Rightarrow> 'a option" where
  \<comment> \<open>ToNumber: \<open>undefined\<close> is NaN, \<open>null\<close> is 0\<close>
  "toNumber v = (case v of Undefined \<Rightarrow> None | Null \<Rightarrow> Some 0 | Val r \<Rightarrow> Some r)"

definition js_le :: "'a::linorder option \<Rightarrow> 'a option \<Rightarrow> bool" where
  \<comment> \<open>\<open>a <= b\<close>: false as soon as one side is NaN\<close>
  "js_le a b = (case a of None \<Rightarrow> False | Some x \<Rightarrow> (case b of None \<Rightarrow> False | Some y \<Rightarrow> x \<le> y))"

definition js_ge :: "'a::linorder option \<Rightarrow> 'a option \<Rightarrow> bool" where
  "js_ge a b = js_le b a"

definition js_lt :: "'a::linorder option \<Rightarrow> 'a option \<Rightarrow> bool" where
  "js_lt a b = (case a of None \<Rightarrow> False | Some x \<Rightarrow> (case b of None \<Rightarrow> False | Some y \<Rightarrow> x < y))"

definition js_gt :: "'a::linorder option \<Rightarrow> 'a option \<Rightarrow> bool" where
  "js_gt a b = js_lt b a"

definition or0 :: "'a::zero jsval \<Rightarrow> 'a" where
  \<comment> \<open>\<open>v || 0\<close> on a counter: every falsy value gives 0\<close>
  "or0 v = (case v of Val r \<Rightarrow> r | _ \<Rightarrow> 0)"

definition truthy :: "'a jsval \<Rightarrow> bool" where
  \<comment> \<open>truthiness of a field that holds an object (a date) when it is set\<close>
  "truthy v = (case v of Val x \<Rightarrow> True | _ \<Rightarrow> False)"

definition truthy_str :: "string jsval \<Rightarrow> bool" where
  \<comment> \<open>truthiness of a string field: the empty string is falsy\<close>
  "truthy_str v = (case v of Val x \<Rightarrow> x \<noteq> [] | _ \<Rightarrow> False)"

definition increment :: "'a::plus \<Rightarrow> 'a jsval \<Rightarrow> 'a jsval" where
  \<comment> \<open>Firestore \<open>increment(n)\<close> on a counter: adds to a number, sets a field that holds none\<close>
  "increment n v = (case v of Val r \<Rightarrow> Val (r + n) | _ \<Rightarrow> Val n)"

section \<open>JavaScript numbers\<close>

text \<open>
  A JavaScript number is an IEEE-754 binary64 value: a finite double, an
  infinity or NaN. A finite double is represented by the rational it denotes
  (the two zeros are not told apart). Every arithmetic operation computes the
  exact result and rounds it once, to the nearest double with ties to the even
  significand; a result that rounds to \<open>2^1024\<close> or beyond is an infinity.
  A decimal literal \<open>x\<close> of the source, and a decimal number in a request or
  in the store, denotes \<open>fl x\<close>.

  \<open>ilog2 a\<close> is the integer part of the binary logarithm of \<open>a > 0\<close>. A
  double has a 53-bit significand, and its last bit is worth at least
  \<open>2^-1074\<close>, the spacing of the subnormal numbers.
\<close>

datatype number = Num rat | PInf | NInf | NaN

definition round_half_even :: "rat \<Rightarrow> int" where
  "round_half_even y =
     (let f = \<lfloor>y\<rfloor>; d = y - of_int f
      in if d < 1 / 2 then f else if 1 / 2 < d then f + 1 else if even f then f else f + 1)"

definition ilog2 :: "rat \<Rightarrow> int" where
  "ilog2 a =
     (let k = bitlen (fst (quotient_of a)) - bitlen (snd (quotient_of a))
      in if 2 powi k \<le> a then k else k - 1)"

definition round_double :: "rat \<Rightarrow> rat" where
  "round_double x =
     (if x = 0 then 0
      else let e = max (ilog2 \<bar>x\<bar> - 52) (- 1074)
           in sgn x * of_int (round_half_even (\<bar>x\<bar> / 2 powi e)) * 2 powi e)"

definition fl :: "rat \<Rightarrow> number" where
  "fl x =
     (let r = round_double x
      in if 2 powi 1024 \<le> r then PInf else if r \<le> - (2 powi 1024) then NInf else Num r)"

definition is_double :: "rat \<Rightarrow> bool" where
  \<comment> \<open>the rational is the value of a finite double\<close>
  "is_double x = (fl x = Num x)"

definition sign_of :: "number \<Rightarrow> rat" where
  "sign_of a = (case a of Num x \<Rightarrow> sgn x | PInf \<Rightarrow> 1 | NInf \<Rightarrow> - 1 | NaN \<Rightarrow> 0)"

definition inf_of_sign :: "rat \<Rightarrow> number" where
  "inf_of_sign s = (if 0 < s then PInf else if s < 0 then NInf else NaN)"

definition js_times :: "number \<Rightarrow> number \<Rightarrow> number" where
  \<comment> \<open>\<open>a * b\<close>; an infinity times zero is NaN\<close>
  "js_times a b =
     (case a of
        Num x \<Rightarrow> (case b of Num y \<Rightarrow> fl (x * y) | NaN \<Rightarrow> NaN | _ \<Rightarrow> inf_of_sign (sign_of a * sign_of b))
      | NaN \<Rightarrow> NaN
      | _ \<Rightarrow> (case b of NaN \<Rightarrow> NaN | _ \<Rightarrow> inf_of_sign (sign_of a * sign_of b)))"

definition js_div :: "number \<Rightarrow> number \<Rightarrow> number" where
  \<comment> \<open>\<open>a / b\<close>; a zero divisor counts as the positive zero\<close>
  "js_div a b =
     (case a of
        Num x \<Rightarrow> (case b of Num y \<Rightarrow> (if y = 0 then inf_of_sign x else fl (x / y))
                   | NaN \<Rightarrow> NaN | _ \<Rightarrow> Num 0)
      | NaN \<Rightarrow> NaN
      | _ \<Rightarrow> (case b of Num y \<Rightarrow> inf_of_sign (sign_of a * (if y < 0 then - 1 else 1)) | _ \<Rightarrow> NaN))"

definition js_plus :: "number \<Rightarrow> number \<Rightarrow> number" where
  "js_plus a b =
     (case a of
        Num x \<Rightarrow> (case b of Num y \<Rightarrow> fl (x + y) | _ \<Rightarrow> b)
      | NaN \<Rightarrow> NaN
      | PInf \<Rightarrow> (case b of NaN \<Rightarrow> NaN | NInf \<Rightarrow> NaN | _ \<Rightarrow> PInf)
      | NInf \<Rightarrow> (case b of NaN \<Rightarrow> NaN | PInf \<Rightarrow> NaN | _ \<Rightarrow> NInf))"

definition js_minus :: "number \<Rightarrow> number \<Rightarrow> number" where
  "js_minus a b =
     (case a of
        Num x \<Rightarrow> (case b of Num y \<Rightarrow> fl (x - y) | PInf \<Rightarrow> NInf | NInf \<Rightarrow> PInf | NaN \<Rightarrow> NaN)
      | NaN \<Rightarrow> NaN
      | PInf \<Rightarrow> (case b of NaN \<Rightarrow> NaN | PInf \<Rightarrow> NaN | _ \<Rightarrow> PInf)
      | NInf \<Rightarrow> (case b of NaN \<Rightarrow> NaN | NInf \<Rightarrow> NaN | _ \<Rightarrow> NInf))"

definition num_le :: "number \<Rightarrow> number \<Rightarrow> bool" where
  \<comment> \<open>\<open>a <= b\<close> on numbers: false as soon as one side is NaN\<close>
  "num_le a b =
     (case a of
        NaN \<Rightarrow> False
      | NInf \<Rightarrow> b \<noteq> NaN
      | PInf \<Rightarrow> b = PInf
      | Num x \<Rightarrow> (case b of Num y \<Rightarrow> x \<le> y | PInf \<Rightarrow> True | _ \<Rightarrow> False))"

definition Math_round :: "number \<Rightarrow> number" where
  \<comment> \<open>\<open>Math.round\<close>: the nearest integer, a half rounding up; the result is a double\<close>
  "Math_round a = (case a of Num x \<Rightarrow> Num (of_int \<lfloor>x + 1 / 2\<rfloor>) | _ \<Rightarrow> a)"

definition toNum :: "number jsval \<Rightarrow> number" where
  \<comment> \<open>ToNumber of a numeric field: \<open>undefined\<close> is NaN, \<open>null\<close> is 0\<close>
  "toNum v = (case v of Undefined \<Rightarrow> NaN | Null \<Rightarrow> Num 0 | Val n \<Rightarrow> n)"

definition truthy_num :: "number jsval \<Rightarrow> bool" where
  \<comment> \<open>truthiness of a numeric value: 0 and NaN are falsy\<close>
  "truthy_num v = (case v of Val n \<Rightarrow> n \<noteq> Num 0 \<and> n \<noteq> NaN | _ \<Rightarrow> False)"

definition num_or0 :: "number jsval \<Rightarrow> number" where
  \<comment> \<open>\<open>v || 0\<close> on a numeric field\<close>
  "num_or0 v = (if truthy_num v then toNum v else Num 0)"

definition num_increment :: "number \<Rightarrow> number jsval \<Rightarrow> number jsval" where
  \<comment> \<open>Firestore \<open>increment(n)\<close> on an amount\<close>
  "num_increment n v = (case v of Val r \<Rightarrow> Val (js_plus r n) | _ \<Rightarrow> Val n)"

definition newDate_stored :: "int jsval \<Rightarrow> int option" where
  \<comment> \<open>\<open>new Date(v)\<close> of a field that the routes write as a \<open>Date\<close>: the store
      hands it back as a \<open>Timestamp\<close> object, of which \<open>new Date\<close> makes an
      invalid date, as it does of \<open>undefined\<close>; \<open>null\<close> gives the epoch\<close>
  "newDate_stored v = (case v of Null \<Rightarrow> Some 0 | _ \<Rightarrow> None)"

section \<open>The document store\<close>

text \<open>
  A collection is the list of its documents with their ids, in query order.
  \<open>getDoc\<close> reads by id, \<open>updateDoc\<close> rewrites the document with that id and
  \<open>addDoc\<close> appends a document under the id the store generates (a parameter of
  the routes that create documents).
\<close>

type_synonym 'a collection = "(string \<times> 'a) list"

definition getDoc :: "'a collection \<Rightarrow> string \<Rightarrow> 'a option" where
  "getDoc c i = map_of c i"

fun updateDoc :: "string \<Rightarrow> ('a \<Rightarrow> 'a) \<Rightarrow> 'a collection \<Rightarrow> 'a collection" where
  "updateDoc i f [] = []"
| "updateDoc i f ((j, d) # c) = (if j = i then (j, f d) # c else (j, d) # updateDoc i f c)"

definition addDoc :: "string \<Rightarrow> 'a \<Rightarrow> 'a collection \<Rightarrow> 'a collection" where
  "addDoc i d c = c @ [(i, d)]"

record ambassador =
  a_connectAccountId :: "string jsval"
  a_commissionRate :: "number jsval"
  a_commissionEarned :: "number jsval"
  a_availableBalance :: "number jsval"
  a_totalAmbassadorRevenue :: "number jsval"
  a_totalReferrals :: "int jsval"
  a_lastReferralUsedAt :: "int jsval"
  a_lastPayoutAt :: "int jsval"
  a_status :: "string jsval"
  a_ambassadorSince :: "int jsval"
  a_updatedAt :: "int jsval"
  a_referralCode :: "string jsval"
  a_referralCodeId :: "string jsval"
  a_referralCodeValidTo :: "int jsval"

record partner =
  p_connectAccountId :: "string jsval"
  p_commission :: "number jsval"
  p_commissionRate :: "number jsval"
  p_commissionEarned :: "number jsval"
  p_availableBalance :: "number jsval"
  p_totalPartnerRevenue :: "number jsval"
  p_totalDiscountGiven :: "number jsval"
  p_timesUsed :: "int jsval"
  p_leftPromo :: "int jsval"
  p_totalPromo :: "int jsval"
  p_lastUpdated :: "int jsval"
  p_status :: "string jsval"
  p_promoCode :: "string jsval"
  p_promoId :: "string jsval"
  p_promoCodeValidTo :: "int jsval"
  p_updatedAt :: "int jsval"

record promo =
  pr_code :: "string jsval"
  pr_promoCode :: "string jsval"
  pr_partnerId :: "string jsval"
  pr_discountPercentage :: "number jsval"
  pr_discountRate :: "number jsval"
  pr_validFrom :: "int jsval"
  pr_validTo :: "int jsval"
  pr_usageLimit :: "int jsval"
  pr_timesUsed :: "int jsval"
  pr_status :: "string jsval"
  pr_updatedAt :: "int jsval"

record referral =
  rc_referralCode :: "string jsval"
  rc_ambassadorId :: "string jsval"
  rc_status :: "string jsval"
  rc_validFrom :: "int jsval"
  rc_validTo :: "int jsval"
  rc_usageLimit :: "int jsval"
  rc_timesUsed :: "int jsval"

record partnerTrack =
  pt_userId :: string
  pt_promoCode :: string
  pt_promoId :: string
  pt_partnerId :: "string jsval"
  pt_usedAt :: int
  pt_originalAmount :: "number jsval"
  pt_discountPercentage :: number
  pt_discountAmount :: number
  pt_finalAmount :: number
  pt_companyRevenue :: number
  pt_partnerRevenue :: number
  pt_partnerSharePercentage :: number

record referralTrack =
  rt_userId :: string
  rt_ambassadorId :: "string jsval"
  rt_referralCode :: string
  rt_referralId :: string
  rt_usedAt :: int
  rt_amount :: "number jsval"
  rt_commissionRate :: number
  rt_commissionEarned :: number

record payout =
  po_referrerId :: string
  po_connectedAccountId :: string
  po_amount :: number
  po_status :: string
  po_createdAt :: int
  po_approvedAt :: "int option"
  po_transferId :: "string option"

record db =
  users :: "string list"
  partners :: "partner collection"
  ambassadors :: "ambassador collection"
  partnerPromoCodes :: "promo collection"
  promoCodes :: "promo collection"
  referralCodes :: "referral collection"
  partnerTracking :: "partnerTrack collection"
  referralTracking :: "referralTrack collection"
  ambassadorPayouts :: "payout collection"
  partnerPayouts :: "payout collection"

datatype 'a response = Error nat string | Success 'a

section \<open>The payment processor\<close>

text \<open>
  \<open>stripe.transfers.create\<close> is external: a parameter that either rejects the
  call with a message (\<open>Inl\<close>, the exception the route catches) or returns the id
  of the transfer. Every payout route returns, beside its response and the new
  store, the list of transfer calls it made.
\<close>

record transfer_params =
  tp_amount :: number
  tp_currency :: string
  tp_destination :: string

type_synonym stripe_transfers = "transfer_params \<Rightarrow> string + string"

section \<open>Payout routes of korpo.js\<close>

definition requestPayoutForAmbassador ::
  "int \<Rightarrow> string \<Rightarrow> string \<Rightarrow> string \<Rightarrow> db \<Rightarrow> (string \<times> number) response \<times> db" where
  "requestPayoutForAmbassador now newId ambassadorId connectedAccountId db =
    (if ambassadorId = [] \<or> connectedAccountId = []
     then (Error 400 ''ambassadorId and connectedAccountId are required'', db)
     else case getDoc (ambassadors db) ambassadorId of
       None \<Rightarrow> (Error 404 ''Ambassador not found'', db)
     | Some ambassador \<Rightarrow>
         if a_connectAccountId ambassador \<noteq> Val connectedAccountId
         then (Error 400 ''Connected account ID mismatch'', db)
         else
           let balance = num_or0 (a_commissionEarned ambassador) in
           if num_le balance (Num 0) then (Error 400 ''No referral balance available'', db)
           else (Success (newId, balance),
                 db\<lparr>ambassadorPayouts := addDoc newId
                   \<lparr>po_referrerId = ambassadorId, po_connectedAccountId = connectedAccountId,
                    po_amount = balance, po_status = ''pending'', po_createdAt = now,
                    po_approvedAt = None, po_transferId = None\<rparr> (ambassadorPayouts db)\<rparr>))"

definition approvePayoutForAmbassador ::
  "stripe_transfers \<Rightarrow> int \<Rightarrow> string \<Rightarrow> db \<Rightarrow> unit response \<times> db \<times> transfer_params list" where
  "approvePayoutForAmbassador stripe now requestId db =
    (if requestId = [] then (Error 400 ''requestId is required'', db, [])
     else case getDoc (ambassadorPayouts db) requestId of
       None \<Rightarrow> (Error 404 ''Request not found'', db, [])
     | Some request \<Rightarrow>
         if po_status request \<noteq> ''pending''
         then (Error 400 ''Request already processed'', db, [])
         else (case getDoc (ambassadors db) (po_referrerId request) of
           None \<Rightarrow> (Error 404 ''Ambassador not found'', db, [])
         | Some ambassador \<Rightarrow>
             let payoutAmount = js_times (toNum (a_commissionEarned ambassador)) (fl (1 / 10)) in
             if num_le payoutAmount (Num 0)
             then (Error 400 ''No balance available for payout'', db, [])
             else
               let amountInCents = Math_round (js_times payoutAmount (Num 100));
                   params = \<lparr>tp_amount = amountInCents, tp_currency = ''usd'',
                             tp_destination = po_connectedAccountId request\<rparr>
               in (case stripe params of
                 Inl err \<Rightarrow> (Error 500 err, db, [params])
               | Inr transfer_id \<Rightarrow>
                   (Success (),
                    db\<lparr>ambassadorPayouts := updateDoc requestId
                      (\<lambda>r. r\<lparr>po_status := ''approved'', po_approvedAt := Some now,
                              po_transferId := Some transfer_id\<rparr>) (ambassadorPayouts db)\<rparr>,
                    [params]))))"

definition requestPayoutForPartner ::
  "int \<Rightarrow> string \<Rightarrow> string \<Rightarrow> string \<Rightarrow> db \<Rightarrow> (string \<times> number) response \<times> db" where
  "requestPayoutForPartner now newId partnerId connectedAccountId db =
    (if partnerId = [] \<or> connectedAccountId = []
     then (Error 400 ''partnerId and connectedAccountId are required'', db)
     else case getDoc (partners db) partnerId of
       None \<Rightarrow> (Error 404 ''Partner not found'', db)
     | Some partner \<Rightarrow>
         if p_connectAccountId partner \<noteq> Val connectedAccountId
         then (Error 400 ''Connected account ID mismatch'', db)
         else
           let balance = num_or0 (p_commissionEarned partner) in
           if num_le balance (Num 0) then (Error 400 ''No referral balance available'', db)
           else (Success (newId, balance),
                 db\<lparr>partnerPayouts := addDoc newId
                   \<lparr>po_referrerId = partnerId, po_connectedAccountId = connectedAccountId,
                    po_amount = balance, po_status = ''pending'', po_createdAt = now,
                    po_approvedAt = None, po_transferId = None\<rparr> (partnerPayouts db)\<rparr>))"

definition approvePayoutForPartner ::
  "stripe_transfers \<Rightarrow> int \<Rightarrow> string \<Rightarrow> db \<Rightarrow> unit response \<times> db \<times> transfer_params list" where
  "approvePayoutForPartner stripe now requestId db =
    (if requestId = [] then (Error 400 ''requestId is required'', db, [])
     else case getDoc (partnerPayouts db) requestId of
       None \<Rightarrow> (Error 404 ''Request not found'', db, [])
     | Some request \<Rightarrow>
         if po_status request \<noteq> ''pending''
         then (Error 400 ''Request already processed'', db, [])
         else (case getDoc (partners db) (po_referrerId request) of
           None \<Rightarrow> (Error 404 ''Partner not found'', db, [])
         | Some partner \<Rightarrow>
             let payoutAmount = js_times (toNum (p_commissionEarned partner)) (fl (1 / 10)) in
             if num_le payoutAmount (Num 0)
             then (Error 400 ''No balance available for payout'', db, [])
             else
               let amountInCents = Math_round (js_times payoutAmount (Num 100));
                   params = \<lparr>tp_amount = amountInCents, tp_currency = ''usd'',
                             tp_destination = po_connectedAccountId request\<rparr>
               in (case stripe params of
                 Inl err \<Rightarrow> (Error 500 err, db, [params])
               | Inr transfer_id \<Rightarrow>
                   (Success (),
                    db\<lparr>partnerPayouts := updateDoc requestId
                      (\<lambda>r. r\<lparr>po_status := ''approved'', po_approvedAt := Some now,
                              po_transferId := Some transfer_id\<rparr>) (partnerPayouts db)\<rparr>,
                    [params]))))"

section \<open>Payout approval of the later server (POST /api/ambassador/approvePayout)\<close>

text \<open>
  This version pays the whole \<open>availableBalance\<close> and resets it. When the field
  is absent the comparison with 0 is false, the amount sent is NaN, and after a
  transfer the processor accepted \<open>payoutAmount.toFixed\<close> throws: the route
  answers 500 with both updates already written.
\<close>

definition ambassador_approvePayout ::
  "stripe_transfers \<Rightarrow> int \<Rightarrow> string \<Rightarrow> db \<Rightarrow> unit response \<times> db \<times> transfer_params list" where
  "ambassador_approvePayout stripe now requestId db =
    (if requestId = [] then (Error 400 ''requestId is required'', db, [])
     else case getDoc (ambassadorPayouts db) requestId of
       None \<Rightarrow> (Error 404 ''Request not found'', db, [])
     | Some request \<Rightarrow>
         if po_status request \<noteq> ''pending''
         then (Error 400 ''Request already processed'', db, [])
         else (case getDoc (ambassadors db) (po_referrerId request) of
           None \<Rightarrow> (Error 404 ''Ambassador not found'', db, [])
         | Some ambassador \<Rightarrow>
             let payoutAmount = a_availableBalance ambassador in
             if num_le (toNum payoutAmount) (Num 0)
             then (Error 400 ''No balance available for payout'', db, [])
             else
               let amountInCents = Math_round (js_times (toNum payoutAmount) (Num 100));
                   params = \<lparr>tp_amount = amountInCents, tp_currency = ''usd'',
                             tp_destination = po_connectedAccountId request\<rparr>
               in (case stripe params of
                 Inl err \<Rightarrow> (Error 500 err, db, [params])
               | Inr transfer_id \<Rightarrow>
                   let db1 = db\<lparr>ambassadorPayouts := updateDoc requestId
                         (\<lambda>r. r\<lparr>po_status := ''approved'', po_approvedAt := Some now,
                                 po_transferId := Some transfer_id\<rparr>) (ambassadorPayouts db)\<rparr>;
                       db2 = db1\<lparr>ambassadors := updateDoc (po_referrerId request)
                         (\<lambda>a. a\<lparr>a_availableBalance := Val (Num 0), a_lastPayoutAt := Val now\<rparr>)
                         (ambassadors db1)\<rparr>
                   in if payoutAmount = Undefined
                      then (Error 500 ''Cannot read properties of undefined (reading toFixed)'',
                            db2, [params])
                      else (Success (), db2, [params]))))"

section \<open>Code validation and redemption\<close>

text \<open>
  A query with one equality filter returns the matching documents in order; the
  routes read \<open>docs[0]\<close>.
\<close>

definition query_eq :: "('a \<Rightarrow> string jsval) \<Rightarrow> string \<Rightarrow> 'a collection \<Rightarrow> 'a collection" where
  "query_eq field v c = filter (\<lambda>(i, d). field d = Val v) c"

subsection \<open>GET /api/promoCode/validate/:code (korpo.js)\<close>

text \<open>
  The window of a document in \<open>partnerPromoCodes\<close> is what the request that
  created the code sent, a time. \<open>new Date(x)\<close> of an absent field is an
  invalid date (every comparison with it is false) and of \<open>null\<close> is the
  epoch, which is what \<open>toNumber\<close> gives.
\<close>

definition validatePromoCode :: "int \<Rightarrow> string \<Rightarrow> db \<Rightarrow> number jsval response" where
  "validatePromoCode now code db =
    (case query_eq pr_code code (partnerPromoCodes db) of
       [] \<Rightarrow> Error 404 ''Promo not found''
     | (firestoreId, promo) # rest \<Rightarrow>
         if js_lt (Some now) (toNumber (pr_validFrom promo)) \<or> js_gt (Some now) (toNumber (pr_validTo promo))
         then Error 400 ''Promo expired''
         else if js_ge (toNumber (pr_timesUsed promo)) (toNumber (pr_usageLimit promo))
         then Error 400 ''Usage limit reached''
         else Success (pr_discountPercentage promo))"

subsection \<open>POST /api/promoCode/use/:code\<close>

record promo_result =
  res_discountPercentage :: number
  res_discountAmount :: number
  res_finalAmount :: number
  res_companyRevenue :: number
  res_partnerRevenue :: number

definition usageLimitExceeded :: "int jsval \<Rightarrow> int jsval \<Rightarrow> bool" where
  \<comment> \<open>\<open>usageLimit !== null && usageLimit !== undefined && timesUsed >= usageLimit\<close>\<close>
  "usageLimitExceeded usageLimit timesUsed =
     (usageLimit \<noteq> Null \<and> usageLimit \<noteq> Undefined \<and> js_ge (toNumber timesUsed) (toNumber usageLimit))"

text \<open>The route of korpo.js: discount and commission are percentages.\<close>

definition usePromoCode ::
  "int \<Rightarrow> string \<Rightarrow> string \<Rightarrow> string \<Rightarrow> number jsval \<Rightarrow> db \<Rightarrow> promo_result response \<times> db" where
  "usePromoCode now newId code userId amount db =
    (if userId = [] \<or> amount = Undefined then (Error 400 ''userId and amount are required'', db)
     else if userId \<notin> set (users db) then (Error 404 ''User not found'', db)
     else case query_eq pr_code code (partnerPromoCodes db) of
       [] \<Rightarrow> (Error 404 ''Promo code not found'', db)
     | (promoId, promoData) # rest \<Rightarrow>
         if usageLimitExceeded (pr_usageLimit promoData) (pr_timesUsed promoData)
         then (Error 400 ''Usage limit exceeded'', db)
         else
           let discountPercentage = num_or0 (pr_discountPercentage promoData);
               discountAmount = js_div (js_times (toNum amount) discountPercentage) (Num 100);
               finalAmount = js_minus (toNum amount) discountAmount;
               partnerId = (if truthy_str (pr_partnerId promoData) then pr_partnerId promoData else Null);
               partnerSnap = (case partnerId of Val i \<Rightarrow> getDoc (partners db) i | _ \<Rightarrow> None);
               partnerSharePercentage =
                 (case partnerSnap of
                    None \<Rightarrow> Num 30
                  | Some partnerData \<Rightarrow>
                      if p_commission partnerData \<noteq> Undefined then toNum (p_commission partnerData)
                      else Num 30);
               partnerRevenue = js_div (js_times finalAmount partnerSharePercentage) (Num 100);
               companyRevenue = js_minus finalAmount partnerRevenue;
               db1 = db\<lparr>partnerPromoCodes := updateDoc promoId
                       (\<lambda>d. d\<lparr>pr_timesUsed := increment 1 (pr_timesUsed d)\<rparr>) (partnerPromoCodes db)\<rparr>;
               db2 = db1\<lparr>partnerTracking := addDoc newId
                       \<lparr>pt_userId = userId, pt_promoCode = code, pt_promoId = promoId,
                        pt_partnerId = partnerId, pt_usedAt = now, pt_originalAmount = amount,
                        pt_discountPercentage = discountPercentage, pt_discountAmount = discountAmount,
                        pt_finalAmount = finalAmount, pt_companyRevenue = companyRevenue,
                        pt_partnerRevenue = partnerRevenue,
                        pt_partnerSharePercentage = partnerSharePercentage\<rparr> (partnerTracking db1)\<rparr>;
               timesUsed = or0 (pr_timesUsed promoData) + 1;
               usageLimit = or0 (pr_usageLimit promoData);
               leftPromo = (if usageLimit > 0 then Val (usageLimit - timesUsed) else Null);
               db3 = (case partnerId of
                        Val i \<Rightarrow> db2\<lparr>partners := updateDoc i
                          (\<lambda>d. d\<lparr>p_lastUpdated := Val now,
                                  p_totalPartnerRevenue := num_increment partnerRevenue (p_totalPartnerRevenue d),
                                  p_timesUsed := Val timesUsed, p_leftPromo := leftPromo,
                                  p_totalPromo := (if usageLimit > 0 then Val usageLimit else Null)\<rparr>)
                          (partners db2)\<rparr>
                      | _ \<Rightarrow> db2)
           in (Success \<lparr>res_discountPercentage = discountPercentage, res_discountAmount = discountAmount,
                        res_finalAmount = finalAmount, res_companyRevenue = companyRevenue,
                        res_partnerRevenue = partnerRevenue\<rparr>, db3))"


subsection \<open>POST /api/referralCode/use/:code\<close>

record referral_result =
  rr_commissionEarned :: number
  rr_commissionRate :: number
  rr_timesUsed :: int

text \<open>
  The window of a referral code is \<open>null\<close> or a \<open>Date\<close> that
  /api/ambassador/updateStatus wrote, which the store returns as a
  \<open>Timestamp\<close> (\<open>newDate_stored\<close>). The last write goes to the
  ambassador's document by reference; when that document does not exist the
  store rejects it, after the counter and the tracking entry have been written.
\<close>

definition useReferralCode ::
  "int \<Rightarrow> string \<Rightarrow> string \<Rightarrow> string \<Rightarrow> number jsval \<Rightarrow> db \<Rightarrow> referral_result response \<times> db" where
  "useReferralCode now newId code userId amount db =
    (if userId = [] then (Error 400 ''userId is required'', db)
     else if userId \<notin> set (users db) then (Error 404 ''User not found'', db)
     else case query_eq rc_referralCode code (referralCodes db) of
       [] \<Rightarrow> (Error 404 ''Referral code not found'', db)
     | (referralId, referralData) # rest \<Rightarrow>
         if rc_status referralData \<noteq> Val ''active''
         then (Error 400 ''Referral code is not active'', db)
         else if truthy (rc_validFrom referralData) \<and> js_gt (newDate_stored (rc_validFrom referralData)) (Some now)
         then (Error 400 ''Referral code is not valid yet'', db)
         else if truthy (rc_validTo referralData) \<and> js_lt (newDate_stored (rc_validTo referralData)) (Some now)
         then (Error 400 ''Referral code has expired'', db)
         else
           let timesUsed = or0 (rc_timesUsed referralData) in
           if usageLimitExceeded (rc_usageLimit referralData) (Val timesUsed)
           then (Error 400 ''Referral code usage limit reached'', db)
           else
             let ambassadorId = rc_ambassadorId referralData in
             if filter (\<lambda>(i, t). rt_userId t = userId \<and> rt_referralCode t = code) (referralTracking db) \<noteq> []
             then (Error 400 ''User already used this referral code'', db)
             else
               let ambassadorData = (case ambassadorId of Val i \<Rightarrow> (if i \<noteq> [] then getDoc (ambassadors db) i else None)
                                     | _ \<Rightarrow> None);
                   commissionRate = (case ambassadorData of
                                       Some a \<Rightarrow> (case a_commissionRate a of Val r \<Rightarrow> r | _ \<Rightarrow> fl (1 / 10))
                                     | None \<Rightarrow> fl (1 / 10));
                   commissionEarned = (if truthy_num amount then js_times (toNum amount) commissionRate
                                       else Num 0);
                   db1 = db\<lparr>referralCodes := updateDoc referralId
                           (\<lambda>d. d\<lparr>rc_timesUsed := increment 1 (rc_timesUsed d)\<rparr>) (referralCodes db)\<rparr>;
                   db2 = db1\<lparr>referralTracking := addDoc newId
                           \<lparr>rt_userId = userId,
                            rt_ambassadorId = (if truthy_str ambassadorId then ambassadorId else Null),
                            rt_referralCode = code, rt_referralId = referralId, rt_usedAt = now,
                            rt_amount = (if amount = Undefined then Null else amount),
                            rt_commissionRate = commissionRate,
                            rt_commissionEarned = commissionEarned\<rparr> (referralTracking db1)\<rparr>;
                   result = \<lparr>rr_commissionEarned = commissionEarned, rr_commissionRate = commissionRate,
                             rr_timesUsed = timesUsed + 1\<rparr>
               in (case ambassadorId of
                     Val i \<Rightarrow>
                       if i = [] then (Success result, db2)
                       else if getDoc (ambassadors db2) i = None
                       then (Error 500 ''No document to update'', db2)
                       else (Success result,
                             db2\<lparr>ambassadors := updateDoc i
                               (\<lambda>a. a\<lparr>a_totalReferrals := increment 1 (a_totalReferrals a),
                                       a_totalAmbassadorRevenue := num_increment commissionEarned (a_totalAmbassadorRevenue a),
                                       a_availableBalance := num_increment commissionEarned (a_availableBalance a),
                                       a_commissionEarned := (if truthy_num amount
                                          then num_increment commissionEarned (a_commissionEarned a)
                                          else a_commissionEarned a),
                                       a_lastReferralUsedAt := Val now\<rparr>) (ambassadors db2)\<rparr>)
                   | _ \<Rightarrow> (Success result, db2)))"

section \<open>Code activation on approval\<close>

definition plus_days :: "int \<Rightarrow> int \<Rightarrow> int" where
  \<comment> \<open>\<open>d.setDate(d.getDate() + n)\<close> on a clock without daylight-saving shifts\<close>
  "plus_days t n = t + n * 86400000"

text \<open>
  POST /api/ambassador/updateStatus. The test for an expired window is
  \<open>new Date(finalValidTo) < now\<close> on the value read from the store
  (\<open>newDate_stored\<close>). The user document is rewritten at the end (fields
  outside this model); when it is missing the route answers 404 after the code
  and the profile have been written.
\<close>

definition ambassador_updateStatus :: "int \<Rightarrow> string \<Rightarrow> string \<Rightarrow> db \<Rightarrow> unit response \<times> db" where
  "ambassador_updateStatus now userId newStatus db =
    (if userId = [] \<or> newStatus = [] then (Error 400 ''Missing user ID or status'', db)
     else case getDoc (ambassadors db) userId of
       None \<Rightarrow> (Error 404 ''Ambassador profile not found.'', db)
     | Some ambassadorData \<Rightarrow>
         let referralSnap = query_eq rc_ambassadorId userId (referralCodes db);
             validTo = plus_days now 100;
             updatedReferralCode = (case referralSnap of [] \<Rightarrow> Null
                                    | (referralId, referralData) # rest \<Rightarrow> rc_referralCode referralData);
             updatedReferralId = (case referralSnap of [] \<Rightarrow> Null
                                  | (referralId, referralData) # rest \<Rightarrow> Val referralId);
             db1 = (case referralSnap of
                      [] \<Rightarrow> db
                    | (referralId, referralData) # rest \<Rightarrow>
                        if newStatus = ''approved'' then
                          let reset = (\<not> truthy (rc_validFrom referralData)
                                        \<or> \<not> truthy (rc_validTo referralData)
                                        \<or> js_lt (newDate_stored (rc_validTo referralData)) (Some now));
                              finalValidFrom = (if reset then Val now else rc_validFrom referralData);
                              finalValidTo = (if reset then Val (plus_days now 100) else rc_validTo referralData)
                          in db\<lparr>referralCodes := updateDoc referralId
                               (\<lambda>d. d\<lparr>rc_status := Val ''active'', rc_validFrom := finalValidFrom,
                                       rc_validTo := finalValidTo\<rparr>) (referralCodes db)\<rparr>
                        else if newStatus = ''declined'' then
                          db\<lparr>referralCodes := updateDoc referralId
                               (\<lambda>d. d\<lparr>rc_status := Val ''inactive''\<rparr>) (referralCodes db)\<rparr>
                        else db);
             db2 = db1\<lparr>ambassadors := updateDoc userId
                     (\<lambda>a. if newStatus = ''approved'' then
                            (if truthy_str updatedReferralCode
                             then a\<lparr>a_status := Val ''approved'',
                                    a_ambassadorSince := (if truthy (a_ambassadorSince ambassadorData)
                                                          then a_ambassadorSince ambassadorData else Val now),
                                    a_updatedAt := Val now, a_referralCode := updatedReferralCode,
                                    a_referralCodeId := updatedReferralId,
                                    a_referralCodeValidTo := Val validTo\<rparr>
                             else a\<lparr>a_status := Val ''approved'',
                                    a_ambassadorSince := (if truthy (a_ambassadorSince ambassadorData)
                                                          then a_ambassadorSince ambassadorData else Val now),
                                    a_updatedAt := Val now\<rparr>)
                          else if newStatus = ''declined'' then
                            a\<lparr>a_status := Val ''declined'', a_updatedAt := Val now,
                              a_referralCode := (if truthy_str updatedReferralCode then updatedReferralCode else Null),
                              a_referralCodeId := (if truthy_str updatedReferralId then updatedReferralId else Null)\<rparr>
                          else a\<lparr>a_status := Val newStatus, a_updatedAt := Val now\<rparr>)
                     (ambassadors db1)\<rparr>
         in if userId \<notin> set (users db2) then (Error 404 ''User not found.'', db2)
            else (Success (), db2))"

text \<open>
  POST /api/partner/:partnerId/updateStatus, up to its writes to the partner and
  its promo code. On \<open>declined\<close> the promo reference is built from
  \<open>promoId\<close> without a check: an unset id throws before any write, a missing
  document after the partner has been written. The user document and the
  notification that follow are outside this model.
\<close>

definition partner_updateStatus :: "int \<Rightarrow> string \<Rightarrow> string \<Rightarrow> db \<Rightarrow> unit response \<times> db" where
  "partner_updateStatus now partnerId newStatus db =
    (if newStatus = [] then (Error 400 ''Missing newStatus'', db)
     else case getDoc (partners db) partnerId of
       None \<Rightarrow> (Error 404 ''Partner not found'', db)
     | Some partnerData \<Rightarrow>
         let promoCode = p_promoCode partnerData in
         if newStatus = ''approved'' \<and> truthy_str promoCode then
           let validFrom = now;
               validTo = plus_days validFrom 100;
               db1 = (case p_promoId partnerData of
                        Val promoId \<Rightarrow>
                          (if promoId = [] then db
                           else (case getDoc (promoCodes db) promoId of
                                   None \<Rightarrow> db
                                 | Some existingPromo \<Rightarrow>
                                     db\<lparr>promoCodes := updateDoc promoId
                                       (\<lambda>d. d\<lparr>pr_code := p_promoCode partnerData,
                                               pr_status := Val ''active'', pr_updatedAt := Val now,
                                               pr_validFrom := (if \<not> truthy (pr_validFrom existingPromo)
                                                                then Val validFrom else pr_validFrom d),
                                               pr_validTo := (if \<not> truthy (pr_validTo existingPromo)
                                                              then Val validTo else pr_validTo d)\<rparr>)
                                       (promoCodes db)\<rparr>))
                      | _ \<Rightarrow> db)
           in (Success (),
               db1\<lparr>partners := updateDoc partnerId
                 (\<lambda>p. p\<lparr>p_status := Val ''approved'', p_promoCode := promoCode,
                         p_promoCodeValidTo := Val validTo, p_updatedAt := Val now\<rparr>) (partners db1)\<rparr>)
         else if newStatus = ''declined'' then
           (case p_promoId partnerData of
              Val promoId \<Rightarrow>
                if promoId = [] then (Error 500 ''Invalid document reference'', db)
                else
                  let db1 = db\<lparr>partners := updateDoc partnerId
                              (\<lambda>p. p\<lparr>p_status := Val ''declined'', p_updatedAt := Val now\<rparr>) (partners db)\<rparr>
                  in if getDoc (promoCodes db1) promoId = None
                     then (Error 500 ''No document to update'', db1)
                     else (Success (),
                           db1\<lparr>promoCodes := updateDoc promoId
                             (\<lambda>d. d\<lparr>pr_status := Val ''inactive'', pr_updatedAt := Val now\<rparr>)
                             (promoCodes db1)\<rparr>)
            | _ \<Rightarrow> (Error 500 ''Invalid document reference'', db))
         else (Success (),
               db\<lparr>partners := updateDoc partnerId
                 (\<lambda>p. p\<lparr>p_status := Val newStatus, p_updatedAt := Val now\<rparr>) (partners db)\<rparr>))"

section \<open>Code generation\<close>

definition slice_last4 :: "string \<Rightarrow> string" where
  \<comment> \<open>\<open>s.slice(-4)\<close>\<close>
  "slice_last4 s = drop (length s - 4) s"

definition toUpperCase :: "string \<Rightarrow> string" where
  \<comment> \<open>on ASCII letters\<close>
  "toUpperCase s =
     map (\<lambda>c. if (97::nat) \<le> of_char c \<and> of_char c \<le> (122::nat)
               then char_of (of_char c - (32::nat)) else c) s"

fun string_of_nat :: "nat \<Rightarrow> string" where
  "string_of_nat n =
     (if n < 10 then [char_of (48 + n)]
      else string_of_nat (n div 10) @ [char_of (48 + n mod 10)])"

declare string_of_nat.simps [simp del]

text \<open>
  The loop of POST /api/partner/submitApplication. \<open>random k\<close> is the value of
  \<open>Math.floor(Math.random() * 1000)\<close> at the k-th draw. The state is
  \<open>(finalCode, isUnique, attempts, draws)\<close>.
\<close>

function partner_generateLoop ::
  "promo collection \<Rightarrow> string \<Rightarrow> (nat \<Rightarrow> nat) \<Rightarrow> string \<times> bool \<times> nat \<times> nat \<Rightarrow> string \<times> bool \<times> nat \<times> nat" where
  "partner_generateLoop codes userId random (finalCode, isUnique, attempts, draws) =
     (if \<not> isUnique \<and> attempts < 5 then
        let candidate = (if finalCode = []
                         then ''PRM'' @ toUpperCase (slice_last4 userId) @ string_of_nat (random draws)
                         else finalCode);
            draws' = (if finalCode = [] then draws + 1 else draws)
        in if query_eq pr_promoCode candidate codes = []
           then partner_generateLoop codes userId random (candidate, True, attempts + 1, draws')
           else partner_generateLoop codes userId random ([], False, attempts + 1, draws')
      else (finalCode, isUnique, attempts, draws))"
  by pat_completeness auto
termination
  by (relation "measure (\<lambda>(codes, userId, random, finalCode, isUnique, attempts, draws). 5 - attempts)") auto

declare partner_generateLoop.simps [simp del]

definition partner_generateCode ::
  "promo collection \<Rightarrow> string \<Rightarrow> string \<Rightarrow> (nat \<Rightarrow> nat) \<Rightarrow> string response \<times> nat" where
  "partner_generateCode codes userId promoCode random =
     (case partner_generateLoop codes userId random (promoCode, False, 0, 0) of
        (finalCode, isUnique, attempts, draws) \<Rightarrow>
          (if \<not> isUnique then Error 400 ''Failed to generate unique promo code. Try again.''
           else Success finalCode, attempts))"

text \<open>
  The loop of POST /api/ambassador/submitApplication has no attempt counter and
  its candidate is a function of the user id alone. The result is \<open>None\<close> when
  the loop does not return. The state is \<open>(finalCode, isUnique)\<close>.
\<close>

partial_function (option) ambassador_generateLoop ::
  "referral collection \<Rightarrow> string \<Rightarrow> string \<Rightarrow> string \<times> bool \<Rightarrow> string response option" where
  "ambassador_generateLoop codes userId referralCode st =
     (if \<not> snd st then
        (if query_eq rc_referralCode
              (if fst st = [] then ''AMB'' @ toUpperCase (slice_last4 userId) else fst st) codes = []
         then ambassador_generateLoop codes userId referralCode
                (if fst st = [] then ''AMB'' @ toUpperCase (slice_last4 userId) else fst st, True)
         else if referralCode \<noteq> []
              then Some (Error 400 ''Referral code already exists. Please choose another one.'')
              else ambassador_generateLoop codes userId referralCode ([], False))
      else Some (Success (fst st)))"

definition ambassador_generateCode :: "referral collection \<Rightarrow> string \<Rightarrow> string \<Rightarrow> string response option" where
  "ambassador_generateCode codes userId referralCode =
     ambassador_generateLoop codes userId referralCode (referralCode, False)"

section \<open>A small store for the examples\<close>

definition ambassador0 :: ambassador where
  "ambassador0 =
     \<lparr>a_connectAccountId = Val ''acct_1'', a_commissionRate = Val (fl (1 / 10)),
      a_commissionEarned = Val (fl (150456 / 1000)), a_availableBalance = Val (fl (150456 / 1000)),
      a_totalAmbassadorRevenue = Val (fl (150456 / 1000)), a_totalReferrals = Val 3,
      a_lastReferralUsedAt = Val 4000, a_lastPayoutAt = Undefined,
      a_status = Val ''approved'', a_ambassadorSince = Val 1000, a_updatedAt = Val 1000,
      a_referralCode = Val ''AMB1234'', a_referralCodeId = Val ''ref1'',
      a_referralCodeValidTo = Val 9000\<rparr>"

definition partner0 :: partner where
  "partner0 =
     \<lparr>p_connectAccountId = Val ''acct_2'', p_commission = Val (Num 30),
      p_commissionRate = Val (fl (3 / 10)), p_commissionEarned = Val (Num 200),
      p_availableBalance = Val (Num 0), p_totalPartnerRevenue = Val (Num 0),
      p_totalDiscountGiven = Val (Num 0), p_timesUsed = Val 0, p_leftPromo = Val 1, p_totalPromo = Val 1,
      p_lastUpdated = Val 1000, p_status = Val ''approved'', p_promoCode = Val ''PROMO1'',
      p_promoId = Val ''promo1'', p_promoCodeValidTo = Val 9000, p_updatedAt = Val 1000\<rparr>"

definition promo0 :: promo where
  "promo0 =
     \<lparr>pr_code = Val ''PROMO1'', pr_promoCode = Val ''PROMO1'', pr_partnerId = Val ''par1'',
      pr_discountPercentage = Val (Num 20), pr_discountRate = Val (fl (1 / 5)), pr_validFrom = Val 1000,
      pr_validTo = Val 9000, pr_usageLimit = Val 1, pr_timesUsed = Val 0,
      pr_status = Val ''active'', pr_updatedAt = Val 1000\<rparr>"

definition referral0 :: referral where
  "referral0 =
     \<lparr>rc_referralCode = Val ''AMB1234'', rc_ambassadorId = Val ''amb1'', rc_status = Val ''active'',
      rc_validFrom = Val 1000, rc_validTo = Val 9000, rc_usageLimit = Val 1, rc_timesUsed = Val 0\<rparr>"

definition payout0 :: payout where
  "payout0 =
     \<lparr>po_referrerId = ''amb1'', po_connectedAccountId = ''acct_1'', po_amount = fl (150456 / 1000),
      po_status = ''pending'', po_createdAt = 4500, po_approvedAt = None, po_transferId = None\<rparr>"

definition db0 :: db where
  "db0 =
     \<lparr>users = [''U1'', ''U2'', ''user1234''],
      partners = [(''par1'', partner0)],
      ambassadors = [(''amb1'', ambassador0)],
      partnerPromoCodes = [(''promo1'', promo0)],
      promoCodes = [(''promo1'', promo0)],
      referralCodes = [(''ref1'', referral0)],
      partnerTracking = [],
      referralTracking = [],
      ambassadorPayouts = [(''req1'', payout0)],
      partnerPayouts = [(''preq1'', payout0\<lparr>po_referrerId := ''par1'', po_connectedAccountId := ''acct_2'',
                                          po_amount := Num 200\<rparr>)]\<rparr>"

definition accept :: stripe_transfers where
  "accept params = Inr ''tr_1''"

definition decline :: stripe_transfers where
  "decline params = Inl ''insufficient funds''"

definition db_nolimit :: db where
  \<comment> \<open>the promo code as /api/partner/:partnerId/approve stores it when no usage limit is sent\<close>
  "db_nolimit = db0\<lparr>partnerPromoCodes := [(''promo1'', promo0\<lparr>pr_usageLimit := Null\<rparr>)]\<rparr>"

definition db_norate :: db where
  \<comment> \<open>a partner document without \<open>commissionRate\<close>\<close>
  "db_norate = db0\<lparr>partners := [(''par1'', partner0\<lparr>p_commissionRate := Undefined\<rparr>)]\<rparr>"

definition db_nopartner :: db where
  \<comment> \<open>a promo code that names no partner\<close>
  "db_nopartner = db0\<lparr>partnerPromoCodes := [(''promo1'', promo0\<lparr>pr_partnerId := Null\<rparr>)],
                      promoCodes := [(''promo1'', promo0\<lparr>pr_partnerId := Null\<rparr>)]\<rparr>"

definition db_full_share :: db where
  \<comment> \<open>a code without discount whose partner has a commission of 100 percent\<close>
  "db_full_share = db0\<lparr>partnerPromoCodes := [(''promo1'', promo0\<lparr>pr_discountPercentage := Val (Num 0)\<rparr>)],
                       partners := [(''par1'', partner0\<lparr>p_commission := Val (Num 100)\<rparr>)]\<rparr>"

definition db_expired :: db where
  \<comment> \<open>the partner's code with a window that ended at time 3000\<close>
  "db_expired = db0\<lparr>promoCodes := [(''promo1'', promo0\<lparr>pr_validTo := Val 3000\<rparr>)]\<rparr>"

definition db_tiny :: db where
  \<comment> \<open>an ambassador whose \<open>commissionEarned\<close> is the least positive double\<close>
  "db_tiny = db0\<lparr>ambassadors := [(''amb1'', ambassador0\<lparr>a_commissionEarned := Val (Num (1 / 2 ^ 1074))\<rparr>)]\<rparr>"

definition db_pending :: db where
  \<comment> \<open>the codes as the application routes create them: pending, without a window\<close>
  "db_pending = db0
     \<lparr>referralCodes := [(''ref1'', referral0\<lparr>rc_status := Val ''pending'', rc_validFrom := Null,
                                             rc_validTo := Null\<rparr>)],
      promoCodes := [(''promo1'', promo0\<lparr>pr_status := Val ''pending'', pr_validFrom := Null,
                                       pr_validTo := Null\<rparr>)]\<rparr>"

section \<open>Repeated payout cycles against korpo.js\<close>

text \<open>
  A client that requests a payout and has it approved, once for every request id
  the store hands out, in order. The result is the final store and all transfer
  calls made.
\<close>

fun ambassador_payout_cycles ::
  "stripe_transfers \<Rightarrow> int \<Rightarrow> string \<Rightarrow> string \<Rightarrow> string list \<Rightarrow> db \<Rightarrow> db \<times> transfer_params list" where
  "ambassador_payout_cycles stripe now ambassadorId acct [] db = (db, [])"
| "ambassador_payout_cycles stripe now ambassadorId acct (newId # ids) db =
     (let db1 = snd (requestPayoutForAmbassador now newId ambassadorId acct db);
          r = approvePayoutForAmbassador stripe now newId db1;
          rest = ambassador_payout_cycles stripe now ambassadorId acct ids (fst (snd r))
      in (fst rest, snd (snd r) @ snd rest))"

fun partner_payout_cycles ::
  "stripe_transfers \<Rightarrow> int \<Rightarrow> string \<Rightarrow> string \<Rightarrow> string list \<Rightarrow> db \<Rightarrow> db \<times> transfer_params list" where
  "partner_payout_cycles stripe now partnerId acct [] db = (db, [])"
| "partner_payout_cycles stripe now partnerId acct (newId # ids) db =
     (let db1 = snd (requestPayoutForPartner now newId partnerId acct db);
          r = approvePayoutForPartner stripe now newId db1;
          rest = partner_payout_cycles stripe now partnerId acct ids (fst (snd r))
      in (fst rest, snd (snd r) @ snd rest))"

definition korpo_transfer :: "number \<Rightarrow> string \<Rightarrow> transfer_params" where
  \<comment> \<open>the call of both approval routes of korpo.js for a stored \<open>commissionEarned\<close> of \<open>c\<close>:
      \<open>Math.round(c * 0.10 * 100)\<close>, the products taken from the left\<close>
  "korpo_transfer c acct =
     \<lparr>tp_amount = Math_round (js_times (js_times c (fl (1 / 10))) (Num 100)), tp_currency = ''usd'',
      tp_destination = acct\<rparr>"

section \<open>Facts about rounding to a double\<close>

lemma int_bracket:
  fixes p :: int assumes "0 < p"
  shows "(2::rat) powi (bitlen p - 1) \<le> of_int p \<and> of_int p < (2::rat) powi (bitlen p)"
proof -
  from bitlen_bounds [OF assms] have b: "2 ^ nat (bitlen p - 1) \<le> p" "p < 2 ^ nat (bitlen p)" by auto
  have pos: "1 \<le> bitlen p" using assms by (auto simp: bitlen_alt_def)
  have "(of_int (2 ^ nat (bitlen p - 1)) :: rat) \<le> of_int p" using b(1) by (simp only: of_int_le_iff)
  moreover have "(of_int p :: rat) < of_int (2 ^ nat (bitlen p))" using b(2) by (simp only: of_int_less_iff)
  ultimately show ?thesis using pos by (simp add: power_int_def)
qed

lemma ilog2_bracket:
  assumes "0 < a"
  shows "2 powi (ilog2 a) \<le> a \<and> a < 2 powi (ilog2 a + 1)"
proof -
  obtain p q where pq: "quotient_of a = (p, q)" by (cases "quotient_of a")
  have q: "0 < q" using quotient_of_denom_pos [OF pq] .
  have a: "a = of_int p / of_int q" using quotient_of_div [OF pq] .
  have p: "0 < p" using assms q a by (simp add: zero_less_divide_iff)
  let ?k = "bitlen p - bitlen q"
  from int_bracket [OF p] int_bracket [OF q]
  have bp: "(2::rat) powi (bitlen p - 1) \<le> of_int p" "of_int p < (2::rat) powi (bitlen p)"
   and bq: "(2::rat) powi (bitlen q - 1) \<le> of_int q" "of_int q < (2::rat) powi (bitlen q)" by auto
  have qr: "(0::rat) < of_int q" using q by simp
  have up: "a < 2 powi (?k + 1)"
  proof -
    have "of_int p < (2::rat) powi (?k + 1) * 2 powi (bitlen q - 1)"
      using bp(2) by (simp flip: power_int_add)
    also have "\<dots> \<le> 2 powi (?k + 1) * of_int q"
      using bq(1) by (intro mult_left_mono) auto
    finally show ?thesis using qr by (simp add: a pos_divide_less_eq)
  qed
  have lo: "2 powi (?k - 1) < a"
  proof -
    have "(2::rat) powi (?k - 1) * of_int q < 2 powi (?k - 1) * 2 powi (bitlen q)"
      using bq(2) by (intro mult_strict_left_mono) auto
    also have "\<dots> = 2 powi (bitlen p - 1)" by (simp flip: power_int_add)
    also have "\<dots> \<le> of_int p" by (rule bp(1))
    finally show ?thesis using qr by (simp add: a pos_less_divide_eq)
  qed
  show ?thesis
  proof (cases "2 powi ?k \<le> a")
    case True
    then have "ilog2 a = ?k" by (simp add: ilog2_def pq Let_def)
    then show ?thesis using True up by simp
  next
    case False
    then have "ilog2 a = ?k - 1" by (simp add: ilog2_def pq Let_def)
    then show ?thesis using False lo by simp
  qed
qed

lemma pow2_less_imp_less:
  assumes "(2::rat) powi m < 2 powi n" shows "m < n"
proof (rule ccontr)
  assume "\<not> m < n"
  then have "n \<le> m" by simp
  then have "(2::rat) powi n \<le> 2 powi m" by (intro power_int_increasing) auto
  with assms show False by simp
qed

lemma ilog2_unique:
  assumes "0 < a" "2 powi k \<le> a" "a < 2 powi (k + 1)"
  shows "ilog2 a = k"
proof -
  from ilog2_bracket [OF assms(1)] have b: "2 powi (ilog2 a) \<le> a" "a < 2 powi (ilog2 a + 1)" by auto
  have "(2::rat) powi k < 2 powi (ilog2 a + 1)" using assms(2) b(2) by simp
  then have 1: "k < ilog2 a + 1" by (rule pow2_less_imp_less)
  have "(2::rat) powi (ilog2 a) < 2 powi (k + 1)" using assms(3) b(1) by simp
  then have 2: "ilog2 a < k + 1" by (rule pow2_less_imp_less)
  from 1 2 show ?thesis by simp
qed

lemma round_half_even_near:
  assumes "\<bar>y - of_int m\<bar> < 1 / 2"
  shows "round_half_even y = m"
proof -
  have "\<lfloor>y\<rfloor> = m \<or> \<lfloor>y\<rfloor> = m - 1"
  proof (cases "of_int m \<le> y")
    case True
    then have "\<lfloor>y\<rfloor> = m" using assms by (simp add: floor_eq_iff abs_less_iff)
    then show ?thesis by simp
  next
    case False
    then have "\<lfloor>y\<rfloor> = m - 1" using assms by (simp add: floor_eq_iff abs_less_iff)
    then show ?thesis by simp
  qed
  then show ?thesis
  proof
    assume f: "\<lfloor>y\<rfloor> = m"
    have "y - of_int m < 1 / 2" using assms by linarith
    then show ?thesis by (simp add: round_half_even_def f Let_def)
  next
    assume f: "\<lfloor>y\<rfloor> = m - 1"
    have "y - of_int m > - (1 / 2)" using assms by linarith
    then have "1 / 2 < y - of_int (m - 1)" by simp
    then show ?thesis by (simp add: round_half_even_def f Let_def)
  qed
qed

lemma round_half_even_tie:
  assumes "y = of_int m + 1 / 2"
  shows "round_half_even y = (if even m then m else m + 1)"
proof -
  have f: "\<lfloor>y\<rfloor> = m" unfolding assms by (simp add: floor_eq_iff)
  have d: "y - of_int m = 1 / 2" using assms by simp
  show ?thesis unfolding round_half_even_def f Let_def d by simp
qed

lemma round_half_even_int [simp]: "round_half_even (of_int m) = m"
  by (rule round_half_even_near) simp

lemma pow2_neg: "(2::rat) powi (- int n) = 1 / 2 ^ n"
  by (simp add: power_int_minus field_simps)

lemma pow2_pos: "(2::rat) powi (int n) = 2 ^ n"
  by simp

lemma round_double_normal:
  assumes "s = 2 powi e" "- 1074 \<le> e" "2 powi 52 * s \<le> x" "x < 2 powi 53 * s"
      and "round_half_even (x / s) = m"
  shows "round_double x = of_int m * s"
proof -
  have s: "0 < s" by (simp add: assms(1))
  have "0 < 2 powi 52 * s" using s by simp
  then have x: "0 < x" using assms(3) by simp
  have "ilog2 x = e + 52"
  proof (rule ilog2_unique [OF x])
    have e1: "(2::rat) powi (e + 52) = 2 powi 52 * s"
      unfolding assms(1) by (subst power_int_add) (auto simp only: mult.commute)
    have e2: "(2::rat) powi (e + 52 + 1) = 2 powi 53 * s"
    proof -
      have "e + 52 + 1 = e + 53" by simp
      moreover have "(2::rat) powi (e + 53) = 2 powi 53 * 2 powi e"
        by (subst power_int_add) (auto simp only: mult.commute)
      ultimately show ?thesis unfolding assms(1) by (simp only:)
    qed
    show "2 powi (e + 52) \<le> x" unfolding e1 by (rule assms(3))
    show "x < 2 powi (e + 52 + 1)" unfolding e2 by (rule assms(4))
  qed
  then have "max (ilog2 x - 52) (- 1074) = e" using assms(2) by simp
  then show ?thesis using x assms(5) by (simp add: round_double_def Let_def assms(1))
qed

lemma round_double_down:
  assumes "n \<le> 1074" "2 ^ 52 \<le> x * 2 ^ n" "x * 2 ^ n < 2 ^ 53"
      and "round_half_even (x * 2 ^ n) = m"
  shows "round_double x = of_int m / 2 ^ n"
proof -
  have "round_double x = of_int m * (1 / 2 ^ n)"
  proof (rule round_double_normal [where e = "- int n"])
    show "(1::rat) / 2 ^ n = 2 powi (- int n)" by (simp only: pow2_neg)
    show "- 1074 \<le> - int n" using assms(1) by simp
    show "2 powi 52 * (1 / 2 ^ n) \<le> x" using assms(2) by (simp add: field_simps)
    show "x < 2 powi 53 * (1 / 2 ^ n)" using assms(3) by (simp add: field_simps)
    show "round_half_even (x / (1 / 2 ^ n)) = m" using assms(4) by simp
  qed
  then show ?thesis by simp
qed

lemma round_double_up:
  assumes "2 ^ 52 * 2 ^ n \<le> x" "x < 2 ^ 53 * 2 ^ n"
      and "round_half_even (x / 2 ^ n) = m"
  shows "round_double x = of_int m * 2 ^ n"
proof (rule round_double_normal [where e = "int n"])
  show "(2::rat) ^ n = 2 powi (int n)" by simp
  show "- 1074 \<le> int n" by simp
  show "2 powi 52 * 2 ^ n \<le> x" using assms(1) by simp
  show "x < 2 powi 53 * 2 ^ n" using assms(2) by simp
  show "round_half_even (x / 2 ^ n) = m" by (rule assms(3))
qed

lemma round_double_subnormal:
  assumes "0 < x" "x * 2 ^ 1074 < 2 ^ 52"
      and "round_half_even (x * 2 ^ 1074) = m"
  shows "round_double x = of_int m / 2 ^ 1074"
proof -
  from ilog2_bracket [OF assms(1)] have "2 powi (ilog2 x) \<le> x" by simp
  also have "x < 2 ^ 52 / 2 ^ 1074" using assms(2) by (simp add: field_simps)
  also have "(2::rat) ^ 52 / 2 ^ 1074 = 2 powi 52 * 2 powi (- int 1074)"
    by (simp only: pow2_neg) simp
  also have "\<dots> = 2 powi (- 1022)" by (simp flip: power_int_add)
  finally have "ilog2 x < - 1022" by (rule pow2_less_imp_less)
  then have e: "max (ilog2 x - 52) (- 1074) = - 1074" by simp
  have p: "(2::rat) powi (- 1074) = 1 / 2 ^ 1074" using pow2_neg [of 1074] by simp
  show ?thesis using assms(1,3) by (simp add: round_double_def Let_def e p)
qed

lemma round_double_minus: "round_double (- x) = - round_double x"
  by (simp add: round_double_def Let_def)

lemma round_half_even_mono:
  assumes "a \<le> b" shows "round_half_even a \<le> round_half_even b"
proof -
  have fa: "\<lfloor>a\<rfloor> \<le> round_half_even a" "round_half_even a \<le> \<lfloor>a\<rfloor> + 1"
    by (auto simp: round_half_even_def Let_def)
  have fb: "\<lfloor>b\<rfloor> \<le> round_half_even b" "round_half_even b \<le> \<lfloor>b\<rfloor> + 1"
    by (auto simp: round_half_even_def Let_def)
  have le: "\<lfloor>a\<rfloor> \<le> \<lfloor>b\<rfloor>" using assms by (rule floor_mono)
  show ?thesis
  proof (cases "\<lfloor>a\<rfloor> = \<lfloor>b\<rfloor>")
    case False
    then show ?thesis using le fa fb by linarith
  next
    case True
    then have "a - of_int \<lfloor>a\<rfloor> \<le> b - of_int \<lfloor>b\<rfloor>" using assms by simp
    then show ?thesis unfolding round_half_even_def Let_def True by auto
  qed
qed

lemma round_half_even_nonneg: "0 \<le> y \<Longrightarrow> 0 \<le> round_half_even y"
  using round_half_even_mono [of 0 y] round_half_even_int [of 0] by simp

lemma round_double_nonneg: "0 \<le> x \<Longrightarrow> 0 \<le> round_double x"
  by (auto simp: round_double_def Let_def intro!: mult_nonneg_nonneg round_half_even_nonneg)

lemma round_double_0 [simp]: "round_double 0 = 0"
  by (simp add: round_double_def)

lemma round_double_pos:
  assumes "0 < x"
  shows "round_double x = of_int (round_half_even (x / 2 powi (max (ilog2 x - 52) (- 1074))))
           * 2 powi (max (ilog2 x - 52) (- 1074))"
proof -
  have sg: "sgn x = 1" "\<bar>x\<bar> = x" and nz: "x \<noteq> 0" using assms by auto
  show ?thesis unfolding round_double_def Let_def sg using nz by (simp only: if_False mult_1)
qed

text \<open>every value \<open>m * 2^e\<close> with \<open>|m| \<le> 2^53\<close> and \<open>e \<ge> -1074\<close> is a fixed point\<close>

lemma round_double_fixed_pos:
  assumes "0 < m" "m \<le> 2 ^ 53" "- 1074 \<le> e"
  shows "round_double (of_int m * 2 powi e) = of_int m * 2 powi e"
proof -
  let ?x = "of_int m * (2::rat) powi e"
  have x: "0 < ?x" using assms(1) by simp
  let ?e' = "max (ilog2 ?x - 52) (- 1074)"
  from ilog2_bracket [OF x] have b: "2 powi (ilog2 ?x) \<le> ?x" by simp
  have int: "\<exists>k::int. ?x / 2 powi ?e' = of_int k"
  proof (cases "m = 2 ^ 53")
    case True
    have "?x = 2 powi (53 + e)" unfolding True by (simp add: power_int_add)
    then have xe: "?x = 2 powi (e + 53)" by (simp add: add.commute)
    have "ilog2 ?x = e + 53"
    proof (rule ilog2_unique [OF x])
      show "2 powi (e + 53) \<le> ?x" using xe by simp
      have "(2::rat) powi (e + 53) < 2 powi (e + 53 + 1)" by (intro power_int_strict_increasing) auto
      then show "?x < 2 powi (e + 53 + 1)" using xe by simp
    qed
    then have e': "?e' = e + 1" using assms(3) by simp
    have "?x / 2 powi (e + 1) = 2 powi (e + 53 - (e + 1))"
      unfolding xe by (subst power_int_diff) auto
    also have "\<dots> = of_int (2 ^ 52)" by simp
    finally show ?thesis unfolding e' by blast
  next
    case False
    then have m: "m < 2 ^ 53" using assms(2) by simp
    have "?x < 2 powi 53 * 2 powi e"
      using m by (intro mult_strict_right_mono) (auto simp flip: of_int_less_iff)
    also have "\<dots> = 2 powi (e + 53)" by (subst power_int_add) (auto simp: mult.commute)
    finally have "2 powi (ilog2 ?x) < (2::rat) powi (e + 53)" using b by simp
    then have "ilog2 ?x < e + 53" by (rule pow2_less_imp_less)
    then have le: "?e' \<le> e" using assms(3) by simp
    have "?x / 2 powi ?e' = of_int m * 2 powi (e - ?e')"
      by (subst power_int_diff) auto
    also have "\<dots> = of_int m * 2 ^ nat (e - ?e')" using le by (simp add: power_int_def)
    also have "\<dots> = of_int (m * 2 ^ nat (e - ?e'))" by simp
    finally show ?thesis by blast
  qed
  then obtain k :: int where k: "?x / 2 powi ?e' = of_int k" by blast
  have "round_double ?x = of_int (round_half_even (?x / 2 powi ?e')) * 2 powi ?e'"
    using x by (rule round_double_pos)
  also have "\<dots> = ?x / 2 powi ?e' * 2 powi ?e'" unfolding k by simp
  also have "\<dots> = ?x" by simp
  finally show ?thesis .
qed

lemma round_double_fixed:
  assumes "\<bar>m\<bar> \<le> 2 ^ 53" "- 1074 \<le> e"
  shows "round_double (of_int m * 2 powi e) = of_int m * 2 powi e"
proof (cases "m = 0")
  case True then show ?thesis by simp
next
  case False
  show ?thesis
  proof (cases "0 < m")
    case True
    then show ?thesis using assms by (intro round_double_fixed_pos) auto
  next
    case neg: False
    then have "0 < - m" "- m \<le> 2 ^ 53" using False assms by auto
    from round_double_fixed_pos [OF this assms(2)]
    have "round_double (- (of_int m * 2 powi e)) = - (of_int m * 2 powi e)" by simp
    then show ?thesis by (simp only: round_double_minus neg_equal_iff_equal)
  qed
qed

lemma scaled_less:
  assumes "0 < x"
  shows "x / 2 powi (max (ilog2 x - 52) (- 1074)) < 2 ^ 53"
proof -
  let ?e = "max (ilog2 x - 52) (- 1074)"
  from ilog2_bracket [OF assms] have "x < 2 powi (ilog2 x + 1)" by simp
  also have "\<dots> \<le> 2 powi (?e + 53)" by (intro power_int_increasing) auto
  also have "\<dots> = 2 ^ 53 * 2 powi ?e" by (subst power_int_add) (auto simp: mult.commute)
  finally show ?thesis by (simp add: divide_less_eq)
qed

lemma mantissa_le:
  assumes "0 < x"
  shows "round_half_even (x / 2 powi (max (ilog2 x - 52) (- 1074))) \<le> 2 ^ 53"
proof -
  have "round_half_even (x / 2 powi (max (ilog2 x - 52) (- 1074))) \<le> round_half_even (of_int (2 ^ 53))"
    using scaled_less [OF assms] by (intro round_half_even_mono) simp
  then show ?thesis by (simp only: round_half_even_int)
qed



lemma ilog2_mono:
  assumes "0 < x" "x \<le> y"
  shows "ilog2 x \<le> ilog2 y"
proof -
  have y: "0 < y" using assms by simp
  have "2 powi (ilog2 x) \<le> x" using ilog2_bracket [OF assms(1)] by simp
  also have "x \<le> y" by fact
  also have "y < 2 powi (ilog2 y + 1)" using ilog2_bracket [OF y] by simp
  finally have "ilog2 x < ilog2 y + 1" by (rule pow2_less_imp_less)
  then show ?thesis by simp
qed

lemma round_double_mono_pos:
  assumes "0 < x" "x \<le> y"
  shows "round_double x \<le> round_double y"
proof -
  have y: "0 < y" using assms by simp
  let ?ex = "max (ilog2 x - 52) (- 1074)"
  let ?ey = "max (ilog2 y - 52) (- 1074)"
  have rx: "round_double x = of_int (round_half_even (x / 2 powi ?ex)) * 2 powi ?ex"
    using assms(1) by (rule round_double_pos)
  have ry: "round_double y = of_int (round_half_even (y / 2 powi ?ey)) * 2 powi ?ey"
    using y by (rule round_double_pos)
  have le: "?ex \<le> ?ey" using ilog2_mono [OF assms] by simp
  show ?thesis
  proof (cases "?ex = ?ey")
    case True
    have "x / 2 powi ?ey \<le> y / 2 powi ?ey" using assms(2) by (simp add: divide_right_mono)
    then have "round_half_even (x / 2 powi ?ey) \<le> round_half_even (y / 2 powi ?ey)"
      by (rule round_half_even_mono)
    then have "(of_int (round_half_even (x / 2 powi ?ey)) :: rat) \<le> of_int (round_half_even (y / 2 powi ?ey))"
      by (simp only: of_int_le_iff)
    then have "of_int (round_half_even (x / 2 powi ?ey)) * 2 powi ?ey
        \<le> of_int (round_half_even (y / 2 powi ?ey)) * (2::rat) powi ?ey"
      by (rule mult_right_mono) simp
    then show ?thesis unfolding rx ry True .
  next
    case False
    then have lt: "?ex + 1 \<le> ?ey" using le by simp
    then have ey: "?ey = ilog2 y - 52" by simp
    have "(of_int (round_half_even (x / 2 powi ?ex)) :: rat) \<le> of_int (2 ^ 53)"
      using mantissa_le [OF assms(1)] by (simp only: of_int_le_iff)
    then have "round_double x \<le> of_int (2 ^ 53) * 2 powi ?ex"
      unfolding rx by (rule mult_right_mono) simp
    also have "\<dots> = 2 powi (?ex + 1 + 52)" by (simp add: power_int_add)
    also have "\<dots> \<le> 2 powi (?ey + 52)"
      using lt by (intro power_int_increasing) auto
    finally have a: "round_double x \<le> 2 powi (?ey + 52)" .
    have "2 powi (ilog2 y) \<le> y" using ilog2_bracket [OF y] by simp
    then have "2 powi (?ey + 52) \<le> y" using ey by simp
    then have "2 powi (?ey + 52) / 2 powi ?ey \<le> y / 2 powi ?ey"
      by (rule divide_right_mono) simp
    moreover have "2 powi (?ey + 52) / 2 powi ?ey = (of_int (2 ^ 52) :: rat)"
      by (simp add: power_int_add)
    ultimately have "of_int (2 ^ 52) \<le> y / 2 powi ?ey" by simp
    then have "round_half_even (of_int (2 ^ 52)) \<le> round_half_even (y / 2 powi ?ey)"
      by (rule round_half_even_mono)
    then have "2 ^ 52 \<le> round_half_even (y / 2 powi ?ey)"
      by (simp only: round_half_even_int)
    then have "(of_int (2 ^ 52) :: rat) \<le> of_int (round_half_even (y / 2 powi ?ey))"
      by (simp only: of_int_le_iff)
    then have "of_int (2 ^ 52) * 2 powi ?ey \<le> round_double y"
      unfolding ry by (rule mult_right_mono) simp
    moreover have "of_int (2 ^ 52) * 2 powi ?ey = (2::rat) powi (?ey + 52)"
      by (simp add: power_int_add)
    ultimately show ?thesis using a by simp
  qed
qed

lemma round_double_nonpos: "x \<le> 0 \<Longrightarrow> round_double x \<le> 0"
  using round_double_nonneg [of "- x"] by (simp add: round_double_minus)

lemma round_double_mono:
  assumes "x \<le> y"
  shows "round_double x \<le> round_double y"
proof -
  consider "0 < x" | "x \<le> 0" "0 \<le> y" | "y < 0" by linarith
  then show ?thesis
  proof cases
    case 1 then show ?thesis using assms by (rule round_double_mono_pos)
  next
    case 2
    then show ?thesis using round_double_nonpos [of x] round_double_nonneg [of y] by simp
  next
    case 3
    then have "0 < - y" "- y \<le> - x" using assms by auto
    from round_double_mono_pos [OF this] show ?thesis by (simp add: round_double_minus)
  qed
qed

section \<open>Facts about the arithmetic of numbers\<close>

lemma fl_eq:
  assumes "round_double x = r" "- (2 ^ 1024) < r" "r < 2 ^ 1024"
  shows "fl x = Num r"
  using assms by (simp add: fl_def Let_def)

lemma fl_0 [simp]: "fl 0 = Num 0"
  by (simp add: fl_def)

lemma fl_Num_iff: "fl x = Num r \<longleftrightarrow> round_double x = r \<and> - (2 ^ 1024) < r \<and> r < 2 ^ 1024"
  by (auto simp: fl_def Let_def)

lemma is_double_iff: "is_double x \<longleftrightarrow> round_double x = x \<and> - (2 ^ 1024) < x \<and> x < 2 ^ 1024"
  unfolding is_double_def by (rule fl_Num_iff)

lemma fl_uminus_Num: "fl x = Num r \<Longrightarrow> fl (- x) = Num (- r)"
  unfolding fl_Num_iff by (auto simp: round_double_minus)



lemma is_double_int:
  assumes "\<bar>n\<bar> \<le> 2 ^ 53"
  shows "is_double (of_int n)"
proof -
  have "round_double (of_int n * 2 powi 0) = of_int n * 2 powi 0"
    using assms by (intro round_double_fixed) auto
  then have r: "round_double (of_int n) = of_int n" by simp
  have "(of_int \<bar>n\<bar> :: rat) \<le> of_int (2 ^ 53)"
    using assms by (simp only: of_int_le_iff)
  then have "\<bar>(of_int n :: rat)\<bar> \<le> of_int (2 ^ 53)"
    by (simp only: of_int_abs)
  then have "\<bar>(of_int n :: rat)\<bar> < 2 ^ 1024" by simp
  then show ?thesis unfolding is_double_iff using r by auto
qed

lemma fl_numeral [simp]: "numeral k \<le> (2::int) ^ 53 \<Longrightarrow> fl (numeral k) = Num (numeral k)"
  using is_double_int [of "numeral k"] by (simp add: is_double_def)

lemma fl_neg_numeral [simp]: "numeral k \<le> (2::int) ^ 53 \<Longrightarrow> fl (- numeral k) = Num (- numeral k)"
  using is_double_int [of "- numeral k"] by (simp add: is_double_def)

lemma fl_1 [simp]: "fl 1 = Num 1"
  using is_double_int [of 1] by (simp add: is_double_def)

lemma js_times_Num [simp]: "js_times (Num x) (Num y) = fl (x * y)"
  by (simp add: js_times_def)

lemma js_div_Num [simp]: "y \<noteq> 0 \<Longrightarrow> js_div (Num x) (Num y) = fl (x / y)"
  by (simp add: js_div_def)

lemma js_minus_Num [simp]: "js_minus (Num x) (Num y) = fl (x - y)"
  by (simp add: js_minus_def)

lemma js_plus_Num [simp]: "js_plus (Num x) (Num y) = fl (x + y)"
  by (simp add: js_plus_def)

lemma num_le_Num [simp]: "num_le (Num x) (Num y) \<longleftrightarrow> x \<le> y"
  by (simp add: num_le_def)

lemma Math_round_Num [simp]: "Math_round (Num x) = Num (of_int \<lfloor>x + 1 / 2\<rfloor>)"
  by (simp add: Math_round_def)

lemma toNum_simps [simp]: "toNum (Val n) = n" "toNum Null = Num 0" "toNum Undefined = NaN"
  by (simp_all add: toNum_def)


lemma num_or0_pos: "0 < c \<Longrightarrow> num_or0 (Val (Num c)) = Num c"
  by (simp add: num_or0_def truthy_num_def)


text \<open>The doubles of the examples.\<close>

lemma fl_tenth: "fl (1 / 10) = Num (3602879701896397 / 36028797018963968)"
proof -
  have "round_double (1 / 10) = of_int 7205759403792794 / 2 ^ 56"
    by (rule round_double_down) (simp_all add: round_half_even_near)
  from fl_eq [OF this] show ?thesis by simp
qed

lemma fl_balance0: "fl (150456 / 1000) = Num (5293699886997307 / 35184372088832)"
proof -
  have "round_double (150456 / 1000) = of_int 5293699886997307 / 2 ^ 45"
    by (rule round_double_down) (simp_all add: round_half_even_near)
  from fl_eq [OF this] show ?thesis by simp
qed

lemma fl_fifth: "fl (1 / 5) = Num (3602879701896397 / 18014398509481984)"
proof -
  have "round_double (1 / 5) = of_int 7205759403792794 / 2 ^ 55"
    by (rule round_double_down) (simp_all add: round_half_even_near)
  from fl_eq [OF this] show ?thesis by simp
qed

lemma fl_three_tenths: "fl (3 / 10) = Num (5404319552844595 / 18014398509481984)"
proof -
  have "round_double (3 / 10) = of_int 5404319552844595 / 2 ^ 54"
    by (rule round_double_down) (simp_all add: round_half_even_near)
  from fl_eq [OF this] show ?thesis by simp
qed

lemma balance0_cents: "fl (5293699886997307 / 35184372088832 * 100) = Num (2067851518358323 / 137438953472)"
proof -
  have "round_double (5293699886997307 / 35184372088832 * 100) = of_int 8271406073433292 / 2 ^ 39"
    by (rule round_double_down) (simp_all add: round_half_even_near)
  from fl_eq [OF this] show ?thesis by simp
qed

lemma balance0_tenth: "fl (5293699886997307 / 35184372088832 * (3602879701896397 / 36028797018963968)) = Num (2117479954798923 / 140737488355328)"
proof -
  have "round_double (5293699886997307 / 35184372088832 * (3602879701896397 / 36028797018963968)) = of_int 8469919819195692 / 2 ^ 49"
    by (rule round_double_down) (simp_all add: round_half_even_near)
  from fl_eq [OF this] show ?thesis by simp
qed

lemma balance0_tenth_cents: "fl (2117479954798923 / 140737488355328 * 100) = Num (3308562429373317 / 2199023255552)"
proof -
  have "round_double (2117479954798923 / 140737488355328 * 100) = of_int 6617124858746634 / 2 ^ 42"
    by (rule round_double_down) (simp_all add: round_half_even_near)
  from fl_eq [OF this] show ?thesis by simp
qed

lemma tenth_of_200: "fl (200 * (3602879701896397 / 36028797018963968)) = Num (20)"
proof -
  have "round_double (200 * (3602879701896397 / 36028797018963968)) = of_int 5629499534213120 / 2 ^ 48"
    by (rule round_double_down) (simp_all add: round_half_even_near)
  from fl_eq [OF this] show ?thesis by simp
qed

lemma three_tenths_of_80: "fl (80 * (5404319552844595 / 18014398509481984)) = Num (24)"
proof -
  have "round_double (80 * (5404319552844595 / 18014398509481984)) = of_int 6755399441055744 / 2 ^ 48"
    by (rule round_double_down) (simp_all add: round_half_even_near)
  from fl_eq [OF this] show ?thesis by simp
qed

lemma fl_full_share_amount: "fl (446660826607467 / 9007199254740992) = Num (446660826607467 / 9007199254740992)"
proof -
  have "round_double (446660826607467 / 9007199254740992) = of_int 7146573225719472 / 2 ^ 57"
    by (rule round_double_down) (simp_all add: round_half_even_near)
  from fl_eq [OF this] show ?thesis by simp
qed

lemma fl_full_share_excess: "fl (1 / 144115188075855872) = Num (1 / 144115188075855872)"
proof -
  have "round_double (1 / 144115188075855872) = of_int 4503599627370496 / 2 ^ 109"
    by (rule round_double_down) (simp_all add: round_half_even_near)
  from fl_eq [OF this] show ?thesis by simp
qed

lemma full_share_times: "fl (446660826607467 / 9007199254740992 * 100) = Num (2791630166296669 / 562949953421312)"
proof -
  have "round_double (446660826607467 / 9007199254740992 * 100) = of_int 5583260332593338 / 2 ^ 50"
    by (rule round_double_down) (simp_all add: round_half_even_tie [where m = 5583260332593337])
  from fl_eq [OF this] show ?thesis by simp
qed

lemma full_share_div: "fl (2791630166296669 / 562949953421312 / 100) = Num (7146573225719473 / 144115188075855872)"
proof -
  have "round_double (2791630166296669 / 562949953421312 / 100) = of_int 7146573225719473 / 2 ^ 57"
    by (rule round_double_down) (simp_all add: round_half_even_near)
  from fl_eq [OF this] show ?thesis by simp
qed

lemma tenth_of_least: "fl (1 / 2 ^ 1074 * (3602879701896397 / 36028797018963968)) = Num 0"
proof -
  have "round_double (1 / 2 ^ 1074 * (3602879701896397 / 36028797018963968)) = of_int 0 / 2 ^ 1074"
    by (rule round_double_subnormal) (simp_all add: round_half_even_near)
  from fl_eq [OF this] show ?thesis by simp
qed

lemma is_double_least: "is_double (1 / 2 ^ 1074)"
proof -
  have "round_double (of_int 1 * 2 powi (- 1074)) = of_int 1 * 2 powi (- 1074)"
    by (rule round_double_fixed) simp_all
  then have "round_double (1 / 2 ^ 1074) = 1 / 2 ^ 1074"
    by (simp add: power_int_minus divide_simps)
  then show ?thesis unfolding is_double_iff by simp
qed

lemma tenth_of_five_least: "round_double (5 / 2 ^ 1074 * (3602879701896397 / 36028797018963968)) = 1 / 2 ^ 1074"
proof -
  have "round_double (5 / 2 ^ 1074 * (3602879701896397 / 36028797018963968)) = of_int 1 / 2 ^ 1074"
    by (rule round_double_subnormal) (simp_all add: round_half_even_near)
  then show ?thesis by simp
qed

text \<open>
  A tenth of a number is positive as soon as the number is at least five times
  the least positive double.
\<close>

lemma payout_positive:
  assumes "5 / 2 ^ 1074 \<le> c"
  shows "\<not> num_le (js_times (Num c) (fl (1 / 10))) (Num 0)"
proof -
  let ?t = "3602879701896397 / 36028797018963968 :: rat"
  have "5 / 2 ^ 1074 * ?t \<le> c * ?t" using assms by (intro mult_right_mono) auto
  from round_double_mono [OF this] have "1 / 2 ^ 1074 \<le> round_double (c * ?t)"
    by (simp only: tenth_of_five_least)
  then have "0 < round_double (c * ?t)" by (simp add: less_le_trans [of 0 "1 / 2 ^ 1074"])
  then have "\<not> num_le (fl (c * ?t)) (Num 0)"
    by (auto simp: fl_def Let_def num_le_def)
  then show ?thesis by (simp add: fl_tenth)
qed

section \<open>Facts about the store\<close>

lemma getDoc_updateDoc:
  "getDoc (updateDoc i f c) j = (if j = i then map_option f (getDoc c i) else getDoc c j)"
  by (induction c) (auto simp: getDoc_def)

lemma getDoc_addDoc:
  "getDoc (addDoc i d c) j =
     (case getDoc c j of Some x \<Rightarrow> Some x | None \<Rightarrow> if j = i then Some d else None)"
  by (auto simp: getDoc_def addDoc_def map_add_def split: option.splits)

lemma updateDoc_absent: "getDoc c i = None \<Longrightarrow> updateDoc i f c = c"
  by (induction c) (auto simp: getDoc_def split: if_splits)

lemma map_fst_updateDoc: "map fst (updateDoc i g c) = map fst c"
  by (induction c) auto

lemma query_head_getDoc:
  assumes "distinct (map fst c)" "query_eq field v c = (i, d) # rest"
  shows "getDoc c i = Some d \<and> field d = Val v"
proof -
  have "(i, d) \<in> set (query_eq field v c)" using assms(2) by simp
  then have "(i, d) \<in> set c" "field d = Val v" by (auto simp: query_eq_def)
  then show ?thesis using assms(1) by (simp add: getDoc_def)
qed

lemma query_updateDoc_head:
  assumes "distinct (map fst c)" "query_eq field v c = (i, d) # rest" "field (g d) = Val v"
  shows "query_eq field v (updateDoc i g c) = (i, g d) # rest"
  using assms
proof (induction c)
  case Nil
  then show ?case by (simp add: query_eq_def)
next
  case (Cons x c)
  obtain j e where x: "x = (j, e)" by (cases x)
  show ?case
  proof (cases "j = i")
    case True
    have "i \<notin> fst ` set c" using Cons.prems(1) x True by simp
    then have notin: "(i, d) \<notin> set (filter (\<lambda>(i, d). field d = Val v) c)" by force
    have "field e = Val v"
    proof (rule ccontr)
      assume "field e \<noteq> Val v"
      then have "filter (\<lambda>(i, d). field d = Val v) c = (i, d) # rest"
        using Cons.prems(2) x by (simp add: query_eq_def)
      then show False using notin by simp
    qed
    then show ?thesis using Cons.prems(2,3) x True by (simp add: query_eq_def)
  next
    case False
    have ne: "field e \<noteq> Val v"
    proof
      assume "field e = Val v"
      then show False using Cons.prems(2) x False by (simp add: query_eq_def)
    qed
    then have q: "query_eq field v c = (i, d) # rest"
      using Cons.prems(2) x by (simp add: query_eq_def)
    have "distinct (map fst c)" using Cons.prems(1) by simp
    from Cons.IH [OF this q Cons.prems(3)] show ?thesis
      using x False ne by (simp add: query_eq_def)
  qed
qed

lemma query_updateDoc_other:
  assumes "distinct (map fst c)" "getDoc c j = Some e" "field e \<noteq> Val v" "field (g e) \<noteq> Val v"
  shows "query_eq field v (updateDoc j g c) = query_eq field v c"
  using assms
proof (induction c)
  case Nil
  then show ?case by simp
next
  case (Cons x c)
  obtain k d where x: "x = (k, d)" by (cases x)
  show ?case
  proof (cases "k = j")
    case True
    then have "d = e" using Cons.prems(2) x by (simp add: getDoc_def)
    then show ?thesis using x True Cons.prems(3,4) by (simp add: query_eq_def)
  next
    case False
    then have g: "getDoc c j = Some e" using Cons.prems(2) x by (simp add: getDoc_def)
    have "distinct (map fst c)" using Cons.prems(1) by simp
    from Cons.IH [OF this g Cons.prems(3,4)] show ?thesis
      using x False by (simp add: query_eq_def)
  qed
qed

lemmas fixture_defs =
  db0_def ambassador0_def partner0_def promo0_def referral0_def payout0_def accept_def decline_def
  db_nolimit_def db_norate_def db_nopartner_def db_full_share_def db_expired_def db_tiny_def
  db_pending_def

lemmas js_defs =
  toNumber_def js_le_def js_ge_def js_lt_def js_gt_def or0_def increment_def truthy_def
  truthy_str_def truthy_num_def num_or0_def num_increment_def newDate_stored_def

lemmas example_doubles =
  fl_tenth fl_balance0 [simplified] fl_fifth fl_three_tenths
  balance0_cents [simplified] balance0_tenth [simplified] balance0_tenth_cents [simplified]
  tenth_of_200 [simplified] three_tenths_of_80 [simplified]
  full_share_times [simplified] full_share_div [simplified] tenth_of_least [simplified]
  fl_full_share_amount fl_full_share_excess
  fl_uminus_Num [OF tenth_of_200 [simplified]] fl_uminus_Num [OF three_tenths_of_80 [simplified]]
  fl_uminus_Num [OF fl_full_share_excess]

section \<open>Payout approval: what a failed transfer leaves behind\<close>

lemma ambassador_approvePayout_cases:
  assumes "ambassador_approvePayout stripe now requestId db = (resp, db', calls)"
  shows "(calls = [] \<and> db' = db \<and> (\<exists>c m. resp = Error c m))
       \<or> (\<exists>p e request. calls = [p] \<and> stripe p = Inl e \<and> db' = db \<and> resp = Error 500 e
             \<and> getDoc (ambassadorPayouts db) requestId = Some request \<and> po_status request = ''pending'')
       \<or> (\<exists>p tid. calls = [p] \<and> stripe p = Inr tid)"
  using assms unfolding ambassador_approvePayout_def Let_def
  by (auto split: if_splits option.splits sum.splits)

lemma approvePayoutForAmbassador_cases:
  assumes "approvePayoutForAmbassador stripe now requestId db = (resp, db', calls)"
  shows "(calls = [] \<and> db' = db \<and> (\<exists>c m. resp = Error c m))
       \<or> (\<exists>p e request. calls = [p] \<and> stripe p = Inl e \<and> db' = db \<and> resp = Error 500 e
             \<and> getDoc (ambassadorPayouts db) requestId = Some request \<and> po_status request = ''pending'')
       \<or> (\<exists>p tid. calls = [p] \<and> stripe p = Inr tid)"
  using assms unfolding approvePayoutForAmbassador_def Let_def
  by (auto split: if_splits option.splits sum.splits)

text \<open>
  C2. Let \<open>R\<close> be either approval route for ambassadors (the later server's
  /api/ambassador/approvePayout or korpo.js's /api/approvePayoutForAmbassador).
  If the transfer call the route made was rejected, the store is unchanged as a
  whole (so no transfer reference is recorded and every referrer field is as
  before), the answer is an error, and the request is still \<open>pending\<close>.
  Conversely, if the store changed at all, the route made exactly one transfer
  call and the processor accepted it.
\<close>

theorem transfer_failure_leaves_store:
  assumes "R = ambassador_approvePayout \<or> R = approvePayoutForAmbassador"
      and "R stripe now requestId db = (resp, db', calls)"
  shows "((\<exists>p e. calls = [p] \<and> stripe p = Inl e) \<longrightarrow>
            db' = db \<and> (\<exists>c m. resp = Error c m) \<and>
            (\<exists>request. getDoc (ambassadorPayouts db') requestId = Some request
                \<and> po_status request = ''pending''))
       \<and> (db' \<noteq> db \<longrightarrow> (\<exists>p tid. calls = [p] \<and> stripe p = Inr tid))"
proof -
  have "(calls = [] \<and> db' = db \<and> (\<exists>c m. resp = Error c m))
       \<or> (\<exists>p e request. calls = [p] \<and> stripe p = Inl e \<and> db' = db \<and> resp = Error 500 e
             \<and> getDoc (ambassadorPayouts db) requestId = Some request \<and> po_status request = ''pending'')
       \<or> (\<exists>p tid. calls = [p] \<and> stripe p = Inr tid)"
  proof (rule disjE [OF assms(1)])
    assume r: "R = ambassador_approvePayout"
    show ?thesis using ambassador_approvePayout_cases [OF assms(2) [unfolded r]] .
  next
    assume r: "R = approvePayoutForAmbassador"
    show ?thesis using approvePayoutForAmbassador_cases [OF assms(2) [unfolded r]] .
  qed
  then show ?thesis by auto
qed

theorem transfer_failure_leaves_store_witness:
  "fst (snd (ambassador_approvePayout decline 5000 ''req1'' db0)) = db0
   \<and> (\<exists>p tid. snd (snd (approvePayoutForAmbassador accept 5000 ''req1'' db0)) = [p] \<and> accept p = Inr tid)"
proof -
  have a: "ambassador_approvePayout decline 5000 ''req1'' db0 =
      (Error 500 ''insufficient funds'', db0,
       [\<lparr>tp_amount = Num 15046, tp_currency = ''usd'', tp_destination = ''acct_1''\<rparr>])"
    by (simp add: ambassador_approvePayout_def fixture_defs js_defs getDoc_def Let_def example_doubles floor_eq_iff)
  have a': "\<exists>p e. [\<lparr>tp_amount = Num 15046, tp_currency = ''usd'', tp_destination = ''acct_1''\<rparr>] = [p]
        \<and> decline p = Inl e"
    by (simp add: decline_def)
  have b: "fst (snd (approvePayoutForAmbassador accept 5000 ''req1'' db0)) \<noteq> db0"
    by (simp add: approvePayoutForAmbassador_def fixture_defs js_defs getDoc_def Let_def example_doubles floor_eq_iff)
  have c: "approvePayoutForAmbassador accept 5000 ''req1'' db0 =
      (fst (approvePayoutForAmbassador accept 5000 ''req1'' db0),
       fst (snd (approvePayoutForAmbassador accept 5000 ''req1'' db0)),
       snd (snd (approvePayoutForAmbassador accept 5000 ''req1'' db0)))"
    by simp
  from transfer_failure_leaves_store [OF disjI1 [OF refl] a] a'
  have "fst (snd (ambassador_approvePayout decline 5000 ''req1'' db0)) = db0"
    using a by simp
  moreover from transfer_failure_leaves_store [OF disjI2 [OF refl] c] b
  have "\<exists>p tid. snd (snd (approvePayoutForAmbassador accept 5000 ''req1'' db0)) = [p] \<and> accept p = Inr tid"
    by blast
  ultimately show ?thesis by blast
qed

section \<open>Payout approval: a second approval\<close>

lemma ambassador_approvePayout_approved:
  assumes "ambassador_approvePayout stripe now requestId db = (resp, db', [p])" and "stripe p = Inr tid"
  shows "requestId \<noteq> [] \<and> (\<exists>r. getDoc (ambassadorPayouts db') requestId = Some r \<and> po_status r = ''approved''
            \<and> po_transferId r = Some tid)"
  using assms unfolding ambassador_approvePayout_def Let_def
  by (auto split: if_splits option.splits sum.splits simp: getDoc_updateDoc)

lemma approvePayoutForAmbassador_approved:
  assumes "approvePayoutForAmbassador stripe now requestId db = (resp, db', [p])" and "stripe p = Inr tid"
  shows "requestId \<noteq> [] \<and> (\<exists>r. getDoc (ambassadorPayouts db') requestId = Some r \<and> po_status r = ''approved''
            \<and> po_transferId r = Some tid)"
  using assms unfolding approvePayoutForAmbassador_def Let_def
  by (auto split: if_splits option.splits sum.splits simp: getDoc_updateDoc)

lemma ambassador_approvePayout_not_pending:
  assumes "requestId \<noteq> []" "getDoc (ambassadorPayouts db) requestId = Some r" "po_status r \<noteq> ''pending''"
  shows "ambassador_approvePayout stripe now requestId db = (Error 400 ''Request already processed'', db, [])"
  using assms unfolding ambassador_approvePayout_def by simp

lemma approvePayoutForAmbassador_not_pending:
  assumes "requestId \<noteq> []" "getDoc (ambassadorPayouts db) requestId = Some r" "po_status r \<noteq> ''pending''"
  shows "approvePayoutForAmbassador stripe now requestId db = (Error 400 ''Request already processed'', db, [])"
  using assms unfolding approvePayoutForAmbassador_def by simp

text \<open>
  C5. Let \<open>R\<close> be either approval route for ambassadors. After an approval of
  request \<open>requestId\<close> whose transfer the processor accepted, every further
  approval of the same id, at any later time and whatever the processor would
  answer, is rejected with 400 "Request already processed", makes no transfer
  call and leaves the store as it is.
\<close>

theorem second_approval_rejected:
  assumes "R = ambassador_approvePayout \<or> R = approvePayoutForAmbassador"
      and "R stripe now requestId db = (resp, db', [p])"
      and "stripe p = Inr tid"
  shows "R stripe2 now2 requestId db' = (Error 400 ''Request already processed'', db', [])"
proof (rule disjE [OF assms(1)])
  assume r: "R = ambassador_approvePayout"
  from ambassador_approvePayout_approved [OF assms(2) [unfolded r] assms(3)]
  obtain q where "requestId \<noteq> []" "getDoc (ambassadorPayouts db') requestId = Some q"
    "po_status q = ''approved''" by blast
  then show ?thesis unfolding r by (intro ambassador_approvePayout_not_pending) auto
next
  assume r: "R = approvePayoutForAmbassador"
  from approvePayoutForAmbassador_approved [OF assms(2) [unfolded r] assms(3)]
  obtain q where "requestId \<noteq> []" "getDoc (ambassadorPayouts db') requestId = Some q"
    "po_status q = ''approved''" by blast
  then show ?thesis unfolding r by (intro approvePayoutForAmbassador_not_pending) auto
qed

theorem second_approval_rejected_witness:
  "ambassador_approvePayout decline 6000 ''req1''
      (fst (snd (ambassador_approvePayout accept 5000 ''req1'' db0)))
   = (Error 400 ''Request already processed'',
      fst (snd (ambassador_approvePayout accept 5000 ''req1'' db0)), [])"
proof -
  have a: "ambassador_approvePayout accept 5000 ''req1'' db0 =
      (fst (ambassador_approvePayout accept 5000 ''req1'' db0),
       fst (snd (ambassador_approvePayout accept 5000 ''req1'' db0)),
       [\<lparr>tp_amount = Num 15046, tp_currency = ''usd'', tp_destination = ''acct_1''\<rparr>])"
    by (simp add: ambassador_approvePayout_def fixture_defs js_defs getDoc_def Let_def example_doubles floor_eq_iff)
  have b: "accept \<lparr>tp_amount = Num 15046, tp_currency = ''usd'', tp_destination = ''acct_1''\<rparr> = Inr ''tr_1''"
    by (simp add: accept_def)
  show ?thesis
    by (rule second_approval_rejected [OF disjI1 [OF refl] a b])
qed

section \<open>Payout approval: the amount transferred and the balance afterwards\<close>

text \<open>
  C1, as stated, fails on korpo.js. In the example store the ambassador has
  \<open>availableBalance = commissionEarned = 150.456\<close> and request \<open>req1\<close> is
  pending. /api/approvePayoutForAmbassador answers success, but the transfer it
  makes is 1505 minor units (a tenth of \<open>commissionEarned\<close>), not 15046, and
  the ambassador's \<open>availableBalance\<close> is still 150.456 afterwards.
\<close>

theorem korpo_approval_counterexample:
  "map_option po_status (getDoc (ambassadorPayouts db0) ''req1'') = Some ''pending''
   \<and> map_option a_availableBalance (getDoc (ambassadors db0) ''amb1'') = Some (Val (fl (150456 / 1000)))
   \<and> fst (approvePayoutForAmbassador accept 5000 ''req1'' db0) = Success ()
   \<and> map tp_amount (snd (snd (approvePayoutForAmbassador accept 5000 ''req1'' db0))) = [Num 1505]
   \<and> map_option a_availableBalance
        (getDoc (ambassadors (fst (snd (approvePayoutForAmbassador accept 5000 ''req1'' db0)))) ''amb1'')
      = Some (Val (fl (150456 / 1000)))"
  by (simp add: approvePayoutForAmbassador_def fixture_defs js_defs getDoc_def Let_def example_doubles
        floor_eq_iff)

text \<open>
  C1, amended: on the later server's /api/ambassador/approvePayout, with the
  amount in the arithmetic of the code. For a pending request whose ambassador
  has a positive finite \<open>availableBalance\<close> of \<open>b\<close> in the store at approval
  time, the route makes exactly one transfer call, in usd to the request's
  connected account, of \<open>Math.round(b * 100)\<close> minor units, where the product
  is the double nearest to \<open>b * 100\<close> (an infinity if it overflows) and
  \<open>Math.round\<close> takes it to the nearest integer, a half going up; the
  amount stored on the request plays no part. If the processor accepts the
  call, the answer is success, the ambassador's \<open>availableBalance\<close> is 0 (only
  that field and \<open>lastPayoutAt\<close> change) and the request is \<open>approved\<close> with
  the transfer id.
\<close>

theorem approval_pays_current_balance:
  assumes "requestId \<noteq> []"
      and "getDoc (ambassadorPayouts db) requestId = Some request"
      and "po_status request = ''pending''"
      and "getDoc (ambassadors db) (po_referrerId request) = Some a"
      and "a_availableBalance a = Val (Num b)"
      and "0 < b"
      and "ambassador_approvePayout stripe now requestId db = (resp, db', calls)"
  shows "calls = [\<lparr>tp_amount = Math_round (fl (b * 100)), tp_currency = ''usd'',
                   tp_destination = po_connectedAccountId request\<rparr>]
       \<and> (\<forall>tid. stripe (hd calls) = Inr tid \<longrightarrow>
             resp = Success ()
           \<and> getDoc (ambassadors db') (po_referrerId request)
               = Some (a\<lparr>a_availableBalance := Val (Num 0), a_lastPayoutAt := Val now\<rparr>)
           \<and> getDoc (ambassadorPayouts db') requestId
               = Some (request\<lparr>po_status := ''approved'', po_approvedAt := Some now,
                                po_transferId := Some tid\<rparr>))"
  using assms unfolding ambassador_approvePayout_def Let_def
  by (auto split: sum.splits simp: getDoc_updateDoc)

theorem approval_pays_current_balance_witness:
  "map tp_amount (snd (snd (ambassador_approvePayout accept 5000 ''req1'' db0))) = [Num 15046]
   \<and> map_option a_availableBalance
        (getDoc (ambassadors (fst (snd (ambassador_approvePayout accept 5000 ''req1'' db0)))) ''amb1'')
      = Some (Val (Num 0))"
proof -
  have h1: "''req1'' \<noteq> []" by simp
  have h2: "getDoc (ambassadorPayouts db0) ''req1'' = Some payout0"
    by (simp add: db0_def getDoc_def)
  have h3: "po_status payout0 = ''pending''" by (simp add: payout0_def)
  have h4: "getDoc (ambassadors db0) (po_referrerId payout0) = Some ambassador0"
    by (simp add: db0_def payout0_def getDoc_def)
  have h5: "a_availableBalance ambassador0 = Val (Num (5293699886997307 / 35184372088832))"
    by (simp add: ambassador0_def example_doubles)
  have h6: "(0::rat) < 5293699886997307 / 35184372088832" by simp
  have h7: "ambassador_approvePayout accept 5000 ''req1'' db0 =
      (fst (ambassador_approvePayout accept 5000 ''req1'' db0),
       fst (snd (ambassador_approvePayout accept 5000 ''req1'' db0)),
       snd (snd (ambassador_approvePayout accept 5000 ''req1'' db0)))"
    by simp
  from approval_pays_current_balance [OF h1 h2 h3 h4 h5 h6 h7]
  show ?thesis by (simp add: floor_eq_iff accept_def payout0_def example_doubles)
qed

section \<open>korpo.js: an approval writes the request only\<close>

lemma approvePayoutForAmbassador_frame:
  assumes "approvePayoutForAmbassador stripe now requestId db = (Success (), db', calls)"
  shows "\<exists>tid. db' = db\<lparr>ambassadorPayouts := updateDoc requestId
            (\<lambda>r. r\<lparr>po_status := ''approved'', po_approvedAt := Some now, po_transferId := Some tid\<rparr>)
            (ambassadorPayouts db)\<rparr>"
  using assms unfolding approvePayoutForAmbassador_def Let_def
  by (auto split: if_splits option.splits sum.splits)

lemma approvePayoutForPartner_frame:
  assumes "approvePayoutForPartner stripe now requestId db = (Success (), db', calls)"
  shows "\<exists>tid. db' = db\<lparr>partnerPayouts := updateDoc requestId
            (\<lambda>r. r\<lparr>po_status := ''approved'', po_approvedAt := Some now, po_transferId := Some tid\<rparr>)
            (partnerPayouts db)\<rparr>"
  using assms unfolding approvePayoutForPartner_def Let_def
  by (auto split: if_splits option.splits sum.splits)

lemma ambassador_cycle_step:
  assumes "getDoc (ambassadors db) aid = Some a" "a_commissionEarned a = Val (Num c)" "5 / 2 ^ 1074 \<le> c"
      and "a_connectAccountId a = Val acct" "aid \<noteq> []" "acct \<noteq> []" "newId \<noteq> []"
      and "getDoc (ambassadorPayouts db) newId = None"
      and "\<forall>p. \<exists>tid. stripe p = Inr tid"
  shows "\<exists>db2. approvePayoutForAmbassador stripe now newId
                 (snd (requestPayoutForAmbassador now newId aid acct db))
               = (Success (), db2, [korpo_transfer (Num c) acct])
             \<and> ambassadors db2 = ambassadors db
             \<and> (\<forall>j. j \<noteq> newId \<longrightarrow> getDoc (ambassadorPayouts db2) j = getDoc (ambassadorPayouts db) j)"
proof -
  obtain tid where t: "stripe (korpo_transfer (Num c) acct) = Inr tid" using assms(9) by blast
  have c: "0 < c" using assms(3) by (simp add: less_le_trans [of 0 "5 / 2 ^ 1074"])
  have b: "num_or0 (Val (Num c)) = Num c" "\<not> num_le (Num c) (Num 0)"
    using c by (simp_all add: num_or0_pos)
  note p = payout_positive [OF assms(3)]
  show ?thesis
    using assms(1,2,4-8) t b p
    unfolding approvePayoutForAmbassador_def requestPayoutForAmbassador_def Let_def korpo_transfer_def
    by (auto simp: getDoc_addDoc getDoc_updateDoc split: option.splits simp del: js_times_Num num_le_Num)
qed

lemma ambassador_cycles:
  assumes "getDoc (ambassadors db) aid = Some a" "a_commissionEarned a = Val (Num c)" "5 / 2 ^ 1074 \<le> c"
      and "a_connectAccountId a = Val acct" "aid \<noteq> []" "acct \<noteq> []"
      and "distinct ids" "\<forall>i\<in>set ids. i \<noteq> [] \<and> getDoc (ambassadorPayouts db) i = None"
      and "\<forall>p. \<exists>tid. stripe p = Inr tid"
  shows "snd (ambassador_payout_cycles stripe now aid acct ids db)
           = replicate (length ids) (korpo_transfer (Num c) acct)
       \<and> ambassadors (fst (ambassador_payout_cycles stripe now aid acct ids db)) = ambassadors db"
  using assms
proof (induction ids arbitrary: db)
  case Nil
  then show ?case by simp
next
  case (Cons i ids)
  from Cons.prems have i: "i \<noteq> []" "getDoc (ambassadorPayouts db) i = None" by auto
  from ambassador_cycle_step [OF Cons.prems(1-6) i Cons.prems(9), of now]
  obtain db2 where s: "approvePayoutForAmbassador stripe now i
                 (snd (requestPayoutForAmbassador now i aid acct db))
               = (Success (), db2, [korpo_transfer (Num c) acct])"
      "ambassadors db2 = ambassadors db"
      "\<forall>j. j \<noteq> i \<longrightarrow> getDoc (ambassadorPayouts db2) j = getDoc (ambassadorPayouts db) j"
    by blast
  have fresh: "\<forall>j\<in>set ids. j \<noteq> [] \<and> getDoc (ambassadorPayouts db2) j = None"
    using Cons.prems(7,8) s(3) by auto
  have d: "distinct ids" using Cons.prems(7) by simp
  have a2: "getDoc (ambassadors db2) aid = Some a" using s(2) Cons.prems(1) by simp
  from Cons.IH [OF a2 Cons.prems(2-6) d fresh Cons.prems(9)]
  show ?case using s(1,2) by (simp add: Let_def)
qed

lemma partner_cycle_step:
  assumes "getDoc (partners db) pid = Some a" "p_commissionEarned a = Val (Num c)" "5 / 2 ^ 1074 \<le> c"
      and "p_connectAccountId a = Val acct" "pid \<noteq> []" "acct \<noteq> []" "newId \<noteq> []"
      and "getDoc (partnerPayouts db) newId = None"
      and "\<forall>p. \<exists>tid. stripe p = Inr tid"
  shows "\<exists>db2. approvePayoutForPartner stripe now newId
                 (snd (requestPayoutForPartner now newId pid acct db))
               = (Success (), db2, [korpo_transfer (Num c) acct])
             \<and> partners db2 = partners db
             \<and> (\<forall>j. j \<noteq> newId \<longrightarrow> getDoc (partnerPayouts db2) j = getDoc (partnerPayouts db) j)"
proof -
  obtain tid where t: "stripe (korpo_transfer (Num c) acct) = Inr tid" using assms(9) by blast
  have c: "0 < c" using assms(3) by (simp add: less_le_trans [of 0 "5 / 2 ^ 1074"])
  have b: "num_or0 (Val (Num c)) = Num c" "\<not> num_le (Num c) (Num 0)"
    using c by (simp_all add: num_or0_pos)
  note p = payout_positive [OF assms(3)]
  show ?thesis
    using assms(1,2,4-8) t b p
    unfolding approvePayoutForPartner_def requestPayoutForPartner_def Let_def korpo_transfer_def
    by (auto simp: getDoc_addDoc getDoc_updateDoc split: option.splits simp del: js_times_Num num_le_Num)
qed

lemma partner_cycles:
  assumes "getDoc (partners db) pid = Some a" "p_commissionEarned a = Val (Num c)" "5 / 2 ^ 1074 \<le> c"
      and "p_connectAccountId a = Val acct" "pid \<noteq> []" "acct \<noteq> []"
      and "distinct ids" "\<forall>i\<in>set ids. i \<noteq> [] \<and> getDoc (partnerPayouts db) i = None"
      and "\<forall>p. \<exists>tid. stripe p = Inr tid"
  shows "snd (partner_payout_cycles stripe now pid acct ids db)
           = replicate (length ids) (korpo_transfer (Num c) acct)
       \<and> partners (fst (partner_payout_cycles stripe now pid acct ids db)) = partners db"
  using assms
proof (induction ids arbitrary: db)
  case Nil
  then show ?case by simp
next
  case (Cons i ids)
  from Cons.prems have i: "i \<noteq> []" "getDoc (partnerPayouts db) i = None" by auto
  from partner_cycle_step [OF Cons.prems(1-6) i Cons.prems(9), of now]
  obtain db2 where s: "approvePayoutForPartner stripe now i
                 (snd (requestPayoutForPartner now i pid acct db))
               = (Success (), db2, [korpo_transfer (Num c) acct])"
      "partners db2 = partners db"
      "\<forall>j. j \<noteq> i \<longrightarrow> getDoc (partnerPayouts db2) j = getDoc (partnerPayouts db) j"
    by blast
  have fresh: "\<forall>j\<in>set ids. j \<noteq> [] \<and> getDoc (partnerPayouts db2) j = None"
    using Cons.prems(7,8) s(3) by auto
  have d: "distinct ids" using Cons.prems(7) by simp
  have a2: "getDoc (partners db2) pid = Some a" using s(2) Cons.prems(1) by simp
  from Cons.IH [OF a2 Cons.prems(2-6) d fresh Cons.prems(9)]
  show ?case using s(1,2) by (simp add: Let_def)
qed

text \<open>
  C10, as stated, fails for the smallest balances. The ambassador's
  \<open>commissionEarned\<close> is the least positive double, \<open>2^-1074\<close>. The request
  route accepts it (the balance is positive), but a tenth of it rounds to 0, so
  the approval answers 400 "No balance available for payout" and no transfer is
  made, in this and in every later cycle.
\<close>

theorem korpo_cycle_counterexample:
  "map_option a_commissionEarned (getDoc (ambassadors db_tiny) ''amb1'') = Some (Val (Num (1 / 2 ^ 1074)))
   \<and> (0::rat) < 1 / 2 ^ 1074 \<and> is_double (1 / 2 ^ 1074)
   \<and> fst (requestPayoutForAmbassador 5000 ''n1'' ''amb1'' ''acct_1'' db_tiny)
       = Success (''n1'', Num (1 / 2 ^ 1074))
   \<and> fst (approvePayoutForAmbassador accept 5000 ''n1''
            (snd (requestPayoutForAmbassador 5000 ''n1'' ''amb1'' ''acct_1'' db_tiny)))
       = Error 400 ''No balance available for payout''
   \<and> snd (ambassador_payout_cycles accept 5000 ''amb1'' ''acct_1'' [''n1'', ''n2''] db_tiny) = []"
proof -
  have "is_double (1 / 2 ^ 1074)" by (rule is_double_least)
  moreover have "map_option a_commissionEarned (getDoc (ambassadors db_tiny) ''amb1'')
      = Some (Val (Num (1 / 2 ^ 1074)))"
    by (simp add: fixture_defs getDoc_def)
  moreover have "fst (requestPayoutForAmbassador 5000 ''n1'' ''amb1'' ''acct_1'' db_tiny)
       = Success (''n1'', Num (1 / 2 ^ 1074))"
    by (simp add: requestPayoutForAmbassador_def fixture_defs js_defs getDoc_def Let_def)
  moreover have "fst (approvePayoutForAmbassador accept 5000 ''n1''
            (snd (requestPayoutForAmbassador 5000 ''n1'' ''amb1'' ''acct_1'' db_tiny)))
       = Error 400 ''No balance available for payout''"
    by (simp add: approvePayoutForAmbassador_def requestPayoutForAmbassador_def fixture_defs js_defs
          getDoc_def addDoc_def Let_def example_doubles)
  moreover have "snd (ambassador_payout_cycles accept 5000 ''amb1'' ''acct_1'' [''n1'', ''n2''] db_tiny) = []"
    by (simp add: approvePayoutForAmbassador_def requestPayoutForAmbassador_def fixture_defs js_defs
          getDoc_def addDoc_def Let_def example_doubles)
  ultimately show ?thesis by simp
qed

text \<open>
  C10, amended. In korpo.js a successful approval, for an ambassador or for a
  partner, returns the store it was given with one change: the request document
  gets \<open>status\<close>, \<open>approvedAt\<close> and \<open>transferId\<close>. In particular the
  collections of ambassadors and partners, with every field of every referrer,
  are the same. Hence for a referrer whose \<open>commissionEarned\<close> is a finite
  \<open>c\<close> of at least \<open>5 * 2^-1074\<close> (every positive double but the four
  smallest) and a matching connected account, while the processor accepts,
  every request-then-approve cycle (one per fresh request id) makes one more
  transfer of \<open>Math.round(c * 0.10 * 100)\<close> minor units, computed as the code
  does: \<open>c * 0.10\<close> rounded to a double, that times 100 rounded to a double,
  and the result taken to the nearest integer; the referrer documents stay as
  they were.
\<close>

theorem korpo_approval_frame:
  "(approvePayoutForAmbassador stripe now requestId db = (Success (), db', calls) \<longrightarrow>
      (\<exists>tid. db' = db\<lparr>ambassadorPayouts := updateDoc requestId
            (\<lambda>r. r\<lparr>po_status := ''approved'', po_approvedAt := Some now, po_transferId := Some tid\<rparr>)
            (ambassadorPayouts db)\<rparr>))
 \<and> (approvePayoutForPartner stripe now requestId db = (Success (), db', calls) \<longrightarrow>
      (\<exists>tid. db' = db\<lparr>partnerPayouts := updateDoc requestId
            (\<lambda>r. r\<lparr>po_status := ''approved'', po_approvedAt := Some now, po_transferId := Some tid\<rparr>)
            (partnerPayouts db)\<rparr>))
 \<and> (getDoc (ambassadors db) referrerId = Some a \<and> a_commissionEarned a = Val (Num c)
      \<and> 5 / 2 ^ 1074 \<le> c
      \<and> a_connectAccountId a = Val acct \<and> referrerId \<noteq> [] \<and> acct \<noteq> [] \<and> distinct ids
      \<and> (\<forall>i\<in>set ids. i \<noteq> [] \<and> getDoc (ambassadorPayouts db) i = None)
      \<and> (\<forall>q. \<exists>tid. stripe q = Inr tid) \<longrightarrow>
      snd (ambassador_payout_cycles stripe now referrerId acct ids db)
        = replicate (length ids)
            \<lparr>tp_amount = Math_round (js_times (js_times (Num c) (fl (1 / 10))) (Num 100)),
             tp_currency = ''usd'', tp_destination = acct\<rparr>
      \<and> ambassadors (fst (ambassador_payout_cycles stripe now referrerId acct ids db)) = ambassadors db)
 \<and> (getDoc (partners db) referrerId = Some p \<and> p_commissionEarned p = Val (Num c)
      \<and> 5 / 2 ^ 1074 \<le> c
      \<and> p_connectAccountId p = Val acct \<and> referrerId \<noteq> [] \<and> acct \<noteq> [] \<and> distinct ids
      \<and> (\<forall>i\<in>set ids. i \<noteq> [] \<and> getDoc (partnerPayouts db) i = None)
      \<and> (\<forall>q. \<exists>tid. stripe q = Inr tid) \<longrightarrow>
      snd (partner_payout_cycles stripe now referrerId acct ids db)
        = replicate (length ids)
            \<lparr>tp_amount = Math_round (js_times (js_times (Num c) (fl (1 / 10))) (Num 100)),
             tp_currency = ''usd'', tp_destination = acct\<rparr>
      \<and> partners (fst (partner_payout_cycles stripe now referrerId acct ids db)) = partners db)"
  using approvePayoutForAmbassador_frame [of stripe now requestId db db' calls]
        approvePayoutForPartner_frame [of stripe now requestId db db' calls]
        ambassador_cycles [of db referrerId a c acct ids stripe now]
        partner_cycles [of db referrerId p c acct ids stripe now]
  unfolding korpo_transfer_def by blast

theorem korpo_approval_frame_witness:
  "ambassadors (fst (snd (approvePayoutForAmbassador accept 5000 ''req1'' db0))) = ambassadors db0
 \<and> partners (fst (snd (approvePayoutForPartner accept 5000 ''preq1'' db0))) = partners db0
 \<and> map tp_amount (snd (ambassador_payout_cycles accept 5000 ''amb1'' ''acct_1'' [''n1'', ''n2''] db0))
      = [Num 1505, Num 1505]
 \<and> ambassadors (fst (ambassador_payout_cycles accept 5000 ''amb1'' ''acct_1'' [''n1'', ''n2''] db0))
      = ambassadors db0
 \<and> map tp_amount (snd (partner_payout_cycles accept 5000 ''par1'' ''acct_2'' [''n1'', ''n2''] db0))
      = [Num 2000, Num 2000]
 \<and> partners (fst (partner_payout_cycles accept 5000 ''par1'' ''acct_2'' [''n1'', ''n2''] db0))
      = partners db0"
proof -
  let ?ra = "approvePayoutForAmbassador accept 5000 ''req1'' db0"
  let ?rp = "approvePayoutForPartner accept 5000 ''preq1'' db0"
  let ?b = "5293699886997307 / 35184372088832 :: rat"
  have a: "?ra = (Success (), fst (snd ?ra), snd (snd ?ra))"
    by (simp add: approvePayoutForAmbassador_def fixture_defs js_defs getDoc_def Let_def example_doubles)
  have p: "?rp = (Success (), fst (snd ?rp), snd (snd ?rp))"
    by (simp add: approvePayoutForPartner_def fixture_defs js_defs getDoc_def Let_def example_doubles)
  have fa: "ambassadors (fst (snd ?ra)) = ambassadors db0"
    using korpo_approval_frame [where stripe = accept and now = 5000 and requestId = "''req1''"
        and db = db0 and db' = "fst (snd ?ra)" and calls = "snd (snd ?ra)",
        THEN conjunct1, THEN mp, OF a]
    by auto
  have fp: "partners (fst (snd ?rp)) = partners db0"
    using korpo_approval_frame [where stripe = accept and now = 5000 and requestId = "''preq1''"
        and db = db0 and db' = "fst (snd ?rp)" and calls = "snd (snd ?rp)",
        THEN conjunct2, THEN conjunct1, THEN mp, OF p]
    by auto
  have ha: "getDoc (ambassadors db0) ''amb1'' = Some ambassador0
      \<and> a_commissionEarned ambassador0 = Val (Num ?b) \<and> 5 / 2 ^ 1074 \<le> ?b
      \<and> a_connectAccountId ambassador0 = Val ''acct_1'' \<and> ''amb1'' \<noteq> [] \<and> ''acct_1'' \<noteq> []
      \<and> distinct [''n1'', ''n2'']
      \<and> (\<forall>i\<in>set [''n1'', ''n2'']. i \<noteq> [] \<and> getDoc (ambassadorPayouts db0) i = None)
      \<and> (\<forall>q. \<exists>tid. accept q = Inr tid)"
    by (simp add: fixture_defs getDoc_def example_doubles)
  have hp: "getDoc (partners db0) ''par1'' = Some partner0
      \<and> p_commissionEarned partner0 = Val (Num 200) \<and> (5 / 2 ^ 1074 :: rat) \<le> 200
      \<and> p_connectAccountId partner0 = Val ''acct_2'' \<and> ''par1'' \<noteq> [] \<and> ''acct_2'' \<noteq> []
      \<and> distinct [''n1'', ''n2'']
      \<and> (\<forall>i\<in>set [''n1'', ''n2'']. i \<noteq> [] \<and> getDoc (partnerPayouts db0) i = None)
      \<and> (\<forall>q. \<exists>tid. accept q = Inr tid)"
    by (simp add: fixture_defs getDoc_def)
  have ca: "snd (ambassador_payout_cycles accept 5000 ''amb1'' ''acct_1'' [''n1'', ''n2''] db0)
        = replicate (length [''n1'', ''n2''])
            \<lparr>tp_amount = Math_round (js_times (js_times (Num ?b) (fl (1 / 10))) (Num 100)),
             tp_currency = ''usd'', tp_destination = ''acct_1''\<rparr>
      \<and> ambassadors (fst (ambassador_payout_cycles accept 5000 ''amb1'' ''acct_1'' [''n1'', ''n2''] db0))
          = ambassadors db0"
    by (rule korpo_approval_frame [where stripe = accept and now = 5000 and db = db0
        and referrerId = "''amb1''" and a = ambassador0 and c = ?b
        and acct = "''acct_1''" and ids = "[''n1'', ''n2'']",
        THEN conjunct2, THEN conjunct2, THEN conjunct1, THEN mp, OF ha])
  have cp: "snd (partner_payout_cycles accept 5000 ''par1'' ''acct_2'' [''n1'', ''n2''] db0)
        = replicate (length [''n1'', ''n2''])
            \<lparr>tp_amount = Math_round (js_times (js_times (Num 200) (fl (1 / 10))) (Num 100)),
             tp_currency = ''usd'', tp_destination = ''acct_2''\<rparr>
      \<and> partners (fst (partner_payout_cycles accept 5000 ''par1'' ''acct_2'' [''n1'', ''n2''] db0))
          = partners db0"
    by (rule korpo_approval_frame [where stripe = accept and now = 5000 and db = db0
        and referrerId = "''par1''" and p = partner0 and c = "200"
        and acct = "''acct_2''" and ids = "[''n1'', ''n2'']",
        THEN conjunct2, THEN conjunct2, THEN conjunct2, THEN mp, OF hp])
  show ?thesis using fa fp ca cp by (simp add: floor_eq_iff example_doubles)
qed

section \<open>Code generation: the two loops\<close>

lemma partner_generateLoop_attempts:
  "fst (snd (snd st)) \<le> 5 \<Longrightarrow> fst (snd (snd (partner_generateLoop codes userId random st))) \<le> 5"
proof (induction codes userId random st rule: partner_generateLoop.induct)
  case (1 codes userId random finalCode isUnique attempts draws)
  show ?case
  proof (cases "\<not> isUnique \<and> attempts < 5")
    case False
    have "partner_generateLoop codes userId random (finalCode, isUnique, attempts, draws)
            = (finalCode, isUnique, attempts, draws)"
      by (subst partner_generateLoop.simps) (simp only: False if_False)
    then show ?thesis using "1.prems" by simp
  next
    case True
    show ?thesis
      apply (subst partner_generateLoop.simps)
      using True "1.IH" "1.prems"
      apply (auto simp: Let_def)
      done
  qed
qed

lemma partner_generateCode_bounded:
  "snd (partner_generateCode codes userId promoCode random) \<le> 5"
  unfolding partner_generateCode_def
  using partner_generateLoop_attempts [of "(promoCode, False, 0, 0)" codes userId random]
  by (auto split: prod.splits)

lemma partner_generateLoop_unique:
  "partner_generateLoop codes userId random st = (fc, True, n, d) \<Longrightarrow> \<not> fst (snd st)
     \<Longrightarrow> query_eq pr_promoCode fc codes = []"
proof (induction codes userId random st rule: partner_generateLoop.induct)
  case (1 codes userId random finalCode isUnique attempts draws)
  from "1.prems" have nu: "\<not> isUnique" by simp
  show ?case
  proof (cases "attempts < 5")
    case False
    with "1.prems" show ?thesis by (subst (asm) partner_generateLoop.simps) simp
  next
    case True
    let ?cand = "if finalCode = [] then ''PRM'' @ toUpperCase (slice_last4 userId) @ string_of_nat (random draws) else finalCode"
    show ?thesis
    proof (cases "query_eq pr_promoCode ?cand codes = []")
      case e: True
      from "1.prems"(1) have "partner_generateLoop codes userId random (?cand, True, attempts + 1, if finalCode = [] then draws + 1 else draws) = (fc, True, n, d)"
        using True nu e by (subst (asm) partner_generateLoop.simps) (simp add: Let_def)
      then have "fc = ?cand" by (subst (asm) partner_generateLoop.simps) simp
      with e show ?thesis by simp
    next
      case ne: False
      from "1.prems"(1) have "partner_generateLoop codes userId random ([], False, attempts + 1, if finalCode = [] then draws + 1 else draws) = (fc, True, n, d)"
        using True nu ne by (subst (asm) partner_generateLoop.simps) (simp add: Let_def)
      from "1.IH"(2) [OF _ refl refl ne this] True nu show ?thesis by simp
    qed
  qed
qed

lemma ambassador_generateLoop_returns:
  assumes "ambassador_generateLoop codes userId referralCode st = Some y"
  shows "referralCode = [] \<longrightarrow>
         query_eq rc_referralCode (''AMB'' @ toUpperCase (slice_last4 userId)) codes \<noteq> [] \<longrightarrow>
         snd st \<or> (fst st \<noteq> [] \<and> fst st \<noteq> ''AMB'' @ toUpperCase (slice_last4 userId))"
proof (rule ambassador_generateLoop.raw_induct
    [where P = "\<lambda>codes userId referralCode st y. referralCode = [] \<longrightarrow>
         query_eq rc_referralCode (''AMB'' @ toUpperCase (slice_last4 userId)) codes \<noteq> [] \<longrightarrow>
         snd st \<or> (fst st \<noteq> [] \<and> fst st \<noteq> ''AMB'' @ toUpperCase (slice_last4 userId))"],
    goal_cases)
  case (1 f codes userId referralCode st y)
  show ?case
  proof (intro impI)
    assume r: "referralCode = []"
       and q: "query_eq rc_referralCode (''AMB'' @ toUpperCase (slice_last4 userId)) codes \<noteq> []"
    show "snd st \<or> (fst st \<noteq> [] \<and> fst st \<noteq> ''AMB'' @ toUpperCase (slice_last4 userId))"
    proof (rule ccontr)
      assume "\<not> ?thesis"
      then have s: "\<not> snd st" and c: "fst st = [] \<or> fst st = ''AMB'' @ toUpperCase (slice_last4 userId)"
        by blast+
      have cand: "(if fst st = [] then ''AMB'' @ toUpperCase (slice_last4 userId) else fst st)
                   = ''AMB'' @ toUpperCase (slice_last4 userId)"
        using c by auto
      from 1(2) s q r have "f codes userId referralCode ([], False) = Some y"
        by (simp only: cand if_True if_False not_not refl simp_thms)
      from 1(1) [OF this] r q show False by simp
    qed
  qed
qed (rule assms)

lemma ambassador_generateCode_diverges:
  assumes "query_eq rc_referralCode (''AMB'' @ toUpperCase (slice_last4 userId)) codes \<noteq> []"
  shows "ambassador_generateCode codes userId [] = None"
proof (cases "ambassador_generateLoop codes userId [] ([], False)")
  case None
  then show ?thesis by (simp add: ambassador_generateCode_def)
next
  case (Some y)
  from ambassador_generateLoop_returns [OF Some] assms show ?thesis by simp
qed

text \<open>
  C9 at a failing input. The partner loop stops after at most five queries
  (\<open>partner_generateCode_bounded\<close>). The ambassador loop does not: user
  \<open>user1234\<close> applies without a preferred code while the code \<open>AMB1234\<close>,
  the only candidate the loop can build for that user, is already in
  \<open>referralCodes\<close>. The route never returns.
\<close>

theorem ambassador_generation_never_returns:
  "ambassador_generateCode (referralCodes db0) ''user1234'' [] = None"
  by (rule ambassador_generateCode_diverges)
     (simp add: query_eq_def db0_def referral0_def toUpperCase_def slice_last4_def)

section \<open>Validation without a usage limit\<close>

text \<open>
  C6 at a failing input. The promo code has \<open>usageLimit = null\<close>,
  \<open>timesUsed = 0\<close> and a window around the current time. Validation compares
  \<open>timesUsed >= null\<close>, which is \<open>0 >= 0\<close>, and answers 400 "Usage limit
  reached"; the redemption route, which tests for \<open>null\<close> first, accepts the
  same code in the same store.
\<close>

theorem validate_rejects_unlimited_code:
  "validatePromoCode 5000 ''PROMO1'' db_nolimit = Error 400 ''Usage limit reached''
   \<and> fst (usePromoCode 5000 ''t1'' ''PROMO1'' ''U1'' (Val (Num 100)) db_nolimit)
      = Success \<lparr>res_discountPercentage = Num 20, res_discountAmount = Num 20, res_finalAmount = Num 80,
                 res_companyRevenue = Num 56, res_partnerRevenue = Num 24\<rparr>"
  by (simp add: validatePromoCode_def usePromoCode_def usageLimitExceeded_def query_eq_def getDoc_def
        fixture_defs js_defs Let_def)

section \<open>Redeeming the same code twice\<close>

lemma useReferralCode_duplicate:
  assumes "(i, t) \<in> set (referralTracking db)" "rt_userId t = userId" "rt_referralCode t = code"
  shows "\<exists>c m. useReferralCode now newId code userId amount db = (Error c m, db)"
proof -
  have "filter (\<lambda>(i, t). rt_userId t = userId \<and> rt_referralCode t = code) (referralTracking db) \<noteq> []"
    using assms by (auto simp: filter_empty_conv)
  then show ?thesis
    unfolding useReferralCode_def Let_def
    by (auto split: list.splits)
qed

text \<open>
  C3 at a failing input. The referral route refuses a user who already has a
  tracking entry for the code (\<open>useReferralCode_duplicate\<close>). The promo route
  has no such check: user \<open>U1\<close> redeems \<open>PROMO1\<close> twice, both calls succeed,
  and \<open>partnerTracking\<close> ends with two entries for the pair.
\<close>

theorem promo_redeemed_twice:
  "fst (usePromoCode 5000 ''t1'' ''PROMO1'' ''U1'' (Val (Num 100)) db_nolimit)
      = Success \<lparr>res_discountPercentage = Num 20, res_discountAmount = Num 20, res_finalAmount = Num 80,
                 res_companyRevenue = Num 56, res_partnerRevenue = Num 24\<rparr>
   \<and> fst (usePromoCode 6000 ''t2'' ''PROMO1'' ''U1'' (Val (Num 100))
          (snd (usePromoCode 5000 ''t1'' ''PROMO1'' ''U1'' (Val (Num 100)) db_nolimit)))
      = Success \<lparr>res_discountPercentage = Num 20, res_discountAmount = Num 20, res_finalAmount = Num 80,
                 res_companyRevenue = Num 56, res_partnerRevenue = Num 24\<rparr>
   \<and> map (\<lambda>(i, t). (pt_userId t, pt_promoCode t))
        (partnerTracking (snd (usePromoCode 6000 ''t2'' ''PROMO1'' ''U1'' (Val (Num 100))
           (snd (usePromoCode 5000 ''t1'' ''PROMO1'' ''U1'' (Val (Num 100)) db_nolimit)))))
      = [(''U1'', ''PROMO1''), (''U1'', ''PROMO1'')]"
  by (simp add: usePromoCode_def usageLimitExceeded_def query_eq_def getDoc_def addDoc_def
        fixture_defs js_defs Let_def)

section \<open>Activation of a code on approval\<close>

lemma ambassador_updateStatus_referralCodes:
  assumes "userId \<noteq> []" "getDoc (ambassadors db) userId = Some a"
      and "query_eq rc_ambassadorId userId (referralCodes db) = (rid, rd) # rest"
  shows "referralCodes (snd (ambassador_updateStatus now userId ''approved'' db))
       = updateDoc rid
           (\<lambda>d. d\<lparr>rc_status := Val ''active'',
                   rc_validFrom := (if \<not> truthy (rc_validFrom rd) \<or> \<not> truthy (rc_validTo rd)
                                        \<or> js_lt (newDate_stored (rc_validTo rd)) (Some now)
                                    then Val now else rc_validFrom rd),
                   rc_validTo := (if \<not> truthy (rc_validFrom rd) \<or> \<not> truthy (rc_validTo rd)
                                      \<or> js_lt (newDate_stored (rc_validTo rd)) (Some now)
                                  then Val (plus_days now 100) else rc_validTo rd)\<rparr>)
           (referralCodes db)"
  using assms unfolding ambassador_updateStatus_def Let_def
  by (simp split: if_splits)

lemma ambassador_updateStatus_ambassadors:
  assumes "userId \<noteq> []" "getDoc (ambassadors db) userId = Some a"
  shows "\<exists>a'. getDoc (ambassadors (snd (ambassador_updateStatus now userId ''approved'' db))) userId = Some a'"
  using assms unfolding ambassador_updateStatus_def Let_def
  by (simp add: getDoc_updateDoc split: list.splits)

lemma ambassador_activation:
  assumes "userId \<noteq> []" "getDoc (ambassadors db) userId = Some a"
      and "query_eq rc_ambassadorId userId (referralCodes db) = (rid, rd) # rest"
      and "distinct (map fst (referralCodes db))"
  shows "\<exists>rd'. getDoc (referralCodes (snd (ambassador_updateStatus now userId ''approved'' db))) rid = Some rd'
       \<and> query_eq rc_ambassadorId userId (referralCodes (snd (ambassador_updateStatus now userId ''approved'' db)))
            = (rid, rd') # rest
       \<and> rc_status rd' = Val ''active'' \<and> truthy (rc_validFrom rd') \<and> truthy (rc_validTo rd')
       \<and> (\<not> truthy (rc_validFrom rd) \<or> \<not> truthy (rc_validTo rd) \<longrightarrow>
             rc_validFrom rd' = Val now \<and> rc_validTo rd' = Val (plus_days now 100))
       \<and> (\<forall>f t. rc_validFrom rd = Val f \<and> rc_validTo rd = Val t \<and> now \<le> t \<longrightarrow>
             rc_validFrom rd' = Val f \<and> rc_validTo rd' = Val t)"
proof -
  let ?reset = "\<not> truthy (rc_validFrom rd) \<or> \<not> truthy (rc_validTo rd)
                  \<or> js_lt (newDate_stored (rc_validTo rd)) (Some now)"
  let ?g = "\<lambda>d. d\<lparr>rc_status := Val ''active'',
                   rc_validFrom := (if ?reset then Val now else rc_validFrom rd),
                   rc_validTo := (if ?reset then Val (plus_days now 100) else rc_validTo rd)\<rparr>"
  have codes: "referralCodes (snd (ambassador_updateStatus now userId ''approved'' db))
       = updateDoc rid ?g (referralCodes db)"
    by (rule ambassador_updateStatus_referralCodes [OF assms(1-3)])
  have g: "getDoc (referralCodes db) rid = Some rd" "rc_ambassadorId rd = Val userId"
    using query_head_getDoc [OF assms(4,3)] by auto
  have q: "query_eq rc_ambassadorId userId (updateDoc rid ?g (referralCodes db)) = (rid, ?g rd) # rest"
    by (rule query_updateDoc_head [OF assms(4,3)]) (simp add: g(2))
  have r: "?reset \<longleftrightarrow> (\<not> truthy (rc_validFrom rd) \<or> \<not> truthy (rc_validTo rd))"
    by (cases "rc_validTo rd") (auto simp: js_defs)
  show ?thesis
    apply (rule exI [of _ "?g rd"])
    apply (simp only: codes q getDoc_updateDoc g(1) if_True option.map simp_thms)
    apply (simp only: r)
    apply (cases "rc_validFrom rd"; cases "rc_validTo rd")
    apply (auto simp: js_defs)
    done
qed

lemma ambassador_reapproval:
  assumes "userId \<noteq> []" "getDoc (ambassadors db) userId = Some a"
      and "query_eq rc_ambassadorId userId (referralCodes db) = (rid, rd) # rest"
      and "distinct (map fst (referralCodes db))"
      and "db1 = snd (ambassador_updateStatus now userId ''approved'' db)"
      and "db2 = snd (ambassador_updateStatus now2 userId ''approved'' db1)"
      and "getDoc (referralCodes db1) rid = Some rd1"
      and "rc_validTo rd1 = Val t1" "now2 \<le> t1"
  shows "\<exists>rd2. getDoc (referralCodes db2) rid = Some rd2
           \<and> rc_validFrom rd2 = rc_validFrom rd1 \<and> rc_validTo rd2 = rc_validTo rd1"
proof -
  from ambassador_activation [OF assms(1-4), of now]
  obtain rd' where 1: "getDoc (referralCodes db1) rid = Some rd'"
      "query_eq rc_ambassadorId userId (referralCodes db1) = (rid, rd') # rest"
      "truthy (rc_validFrom rd')" "truthy (rc_validTo rd')"
    unfolding assms(5) by blast
  have rd1: "rd' = rd1" using 1(1) assms(7) by simp
  obtain f1 where f1: "rc_validFrom rd1 = Val f1"
    using 1(3) rd1 by (cases "rc_validFrom rd1") (auto simp: truthy_def)
  obtain a1 where a1: "getDoc (ambassadors db1) userId = Some a1"
    using ambassador_updateStatus_ambassadors [OF assms(1,2), of now] unfolding assms(5) by blast
  have d1: "distinct (map fst (referralCodes db1))"
    unfolding assms(5) ambassador_updateStatus_referralCodes [OF assms(1-3)]
    by (simp add: map_fst_updateDoc assms(4))
  from ambassador_activation [OF assms(1) a1 1(2) [unfolded rd1] d1, of now2]
  obtain rd2 where 2: "getDoc (referralCodes db2) rid = Some rd2"
     "\<forall>f t. rc_validFrom rd1 = Val f \<and> rc_validTo rd1 = Val t \<and> now2 \<le> t \<longrightarrow>
             rc_validFrom rd2 = Val f \<and> rc_validTo rd2 = Val t"
    unfolding assms(6) by blast
  from 2(2) f1 assms(8,9) have "rc_validFrom rd2 = Val f1 \<and> rc_validTo rd2 = Val t1" by blast
  then show ?thesis using 2(1) f1 assms(8) by simp
qed

lemma partner_activation:
  assumes "newStatus = ''approved''" "getDoc (partners db) partnerId = Some pd"
      and "truthy_str (p_promoCode pd)" "p_promoId pd = Val promoId" "promoId \<noteq> []"
      and "getDoc (promoCodes db) promoId = Some ex"
  shows "\<exists>ex'. getDoc (promoCodes (snd (partner_updateStatus now partnerId newStatus db))) promoId = Some ex'
       \<and> pr_status ex' = Val ''active''
       \<and> pr_validFrom ex' = (if truthy (pr_validFrom ex) then pr_validFrom ex else Val now)
       \<and> pr_validTo ex' = (if truthy (pr_validTo ex) then pr_validTo ex else Val (plus_days now 100))"
  using assms unfolding partner_updateStatus_def Let_def
  by (auto simp: getDoc_updateDoc truthy_def split: jsval.splits)

text \<open>
  C8, as stated, fails on the partner route. The partner's code has the window
  from 1000 to 3000 and the partner is approved at time 5000, after the window
  has ended. The route answers success and the code is \<open>active\<close>, but its
  window is still from 1000 to 3000: an expired window is not replaced by
  \<open>now\<close> and \<open>now + 100 days\<close>.
\<close>

theorem expired_window_counterexample:
  "map_option (\<lambda>d. (pr_validFrom d, pr_validTo d)) (getDoc (promoCodes db_expired) ''promo1'')
     = Some (Val 1000, Val 3000)
 \<and> (3000::int) < 5000
 \<and> fst (partner_updateStatus 5000 ''par1'' ''approved'' db_expired) = Success ()
 \<and> map_option (\<lambda>d. (pr_status d, pr_validFrom d, pr_validTo d))
     (getDoc (promoCodes (snd (partner_updateStatus 5000 ''par1'' ''approved'' db_expired))) ''promo1'')
     = Some (Val ''active'', Val 1000, Val 3000)"
  by (simp add: partner_updateStatus_def fixture_defs js_defs getDoc_def Let_def plus_days_def)

text \<open>
  C8, amended. Approval of an ambassador (the code is the first referral code of
  that ambassador; document ids are unique) makes the code \<open>active\<close> and
  \<^item> when \<open>validFrom\<close> or \<open>validTo\<close> is unset, sets \<open>validFrom = now\<close> and
    \<open>validTo = now + 100 days\<close>;
  \<^item> when both are set and \<open>validTo\<close> is not before the time of approval,
    leaves both as they are;
  \<^item> hence a further approval at any time up to the \<open>validTo\<close> the first one
    left keeps the window of the first.
  Approval of a partner (the code is the document \<open>promoId\<close> names) makes the
  code \<open>active\<close>, sets \<open>validFrom = now\<close> if \<open>validFrom\<close> is unset and
  \<open>validTo = now + 100 days\<close> if \<open>validTo\<close> is unset, and leaves a bound
  that is set as it is, whether the window has ended or not.
\<close>

theorem activation_window:
  "(userId \<noteq> [] \<and> getDoc (ambassadors db) userId = Some a
      \<and> query_eq rc_ambassadorId userId (referralCodes db) = (rid, rd) # rest
      \<and> distinct (map fst (referralCodes db)) \<longrightarrow>
      (\<exists>rd'. getDoc (referralCodes (snd (ambassador_updateStatus now userId ''approved'' db))) rid = Some rd'
         \<and> rc_status rd' = Val ''active''
         \<and> (\<not> truthy (rc_validFrom rd) \<or> \<not> truthy (rc_validTo rd) \<longrightarrow>
               rc_validFrom rd' = Val now \<and> rc_validTo rd' = Val (plus_days now 100))
         \<and> (\<forall>f t. rc_validFrom rd = Val f \<and> rc_validTo rd = Val t \<and> now \<le> t \<longrightarrow>
               rc_validFrom rd' = Val f \<and> rc_validTo rd' = Val t)))
 \<and> (userId \<noteq> [] \<and> getDoc (ambassadors db) userId = Some a
      \<and> query_eq rc_ambassadorId userId (referralCodes db) = (rid, rd) # rest
      \<and> distinct (map fst (referralCodes db))
      \<and> getDoc (referralCodes (snd (ambassador_updateStatus now userId ''approved'' db))) rid = Some rd1
      \<and> rc_validTo rd1 = Val t1 \<and> now2 \<le> t1 \<longrightarrow>
      (\<exists>rd2. getDoc (referralCodes (snd (ambassador_updateStatus now2 userId ''approved''
                        (snd (ambassador_updateStatus now userId ''approved'' db))))) rid = Some rd2
         \<and> rc_validFrom rd2 = rc_validFrom rd1 \<and> rc_validTo rd2 = rc_validTo rd1))
 \<and> (getDoc (partners db) partnerId = Some pd \<and> truthy_str (p_promoCode pd)
      \<and> p_promoId pd = Val promoId \<and> promoId \<noteq> [] \<and> getDoc (promoCodes db) promoId = Some ex \<longrightarrow>
      (\<exists>ex'. getDoc (promoCodes (snd (partner_updateStatus now partnerId ''approved'' db))) promoId = Some ex'
         \<and> pr_status ex' = Val ''active''
         \<and> pr_validFrom ex' = (if truthy (pr_validFrom ex) then pr_validFrom ex else Val now)
         \<and> pr_validTo ex' = (if truthy (pr_validTo ex) then pr_validTo ex else Val (plus_days now 100))))"
proof (intro conjI impI)
  assume h: "userId \<noteq> [] \<and> getDoc (ambassadors db) userId = Some a
      \<and> query_eq rc_ambassadorId userId (referralCodes db) = (rid, rd) # rest
      \<and> distinct (map fst (referralCodes db))"
  from ambassador_activation [of userId db a rid rd rest now] h
  show "\<exists>rd'. getDoc (referralCodes (snd (ambassador_updateStatus now userId ''approved'' db))) rid = Some rd'
         \<and> rc_status rd' = Val ''active''
         \<and> (\<not> truthy (rc_validFrom rd) \<or> \<not> truthy (rc_validTo rd) \<longrightarrow>
               rc_validFrom rd' = Val now \<and> rc_validTo rd' = Val (plus_days now 100))
         \<and> (\<forall>f t. rc_validFrom rd = Val f \<and> rc_validTo rd = Val t \<and> now \<le> t \<longrightarrow>
               rc_validFrom rd' = Val f \<and> rc_validTo rd' = Val t)"
    by blast
next
  assume h: "userId \<noteq> [] \<and> getDoc (ambassadors db) userId = Some a
      \<and> query_eq rc_ambassadorId userId (referralCodes db) = (rid, rd) # rest
      \<and> distinct (map fst (referralCodes db))
      \<and> getDoc (referralCodes (snd (ambassador_updateStatus now userId ''approved'' db))) rid = Some rd1
      \<and> rc_validTo rd1 = Val t1 \<and> now2 \<le> t1"
  show "\<exists>rd2. getDoc (referralCodes (snd (ambassador_updateStatus now2 userId ''approved''
                        (snd (ambassador_updateStatus now userId ''approved'' db))))) rid = Some rd2
         \<and> rc_validFrom rd2 = rc_validFrom rd1 \<and> rc_validTo rd2 = rc_validTo rd1"
  proof -
    from h have h1: "userId \<noteq> []" and h2: "getDoc (ambassadors db) userId = Some a"
      and h3: "query_eq rc_ambassadorId userId (referralCodes db) = (rid, rd) # rest"
      and h4: "distinct (map fst (referralCodes db))"
      and h5: "getDoc (referralCodes (snd (ambassador_updateStatus now userId ''approved'' db))) rid = Some rd1"
      and h6: "rc_validTo rd1 = Val t1" and h7: "now2 \<le> t1"
      by blast+
    show ?thesis by (rule ambassador_reapproval [OF h1 h2 h3 h4 refl refl h5 h6 h7])
  qed
next
  assume h: "getDoc (partners db) partnerId = Some pd \<and> truthy_str (p_promoCode pd)
      \<and> p_promoId pd = Val promoId \<and> promoId \<noteq> [] \<and> getDoc (promoCodes db) promoId = Some ex"
  show "\<exists>ex'. getDoc (promoCodes (snd (partner_updateStatus now partnerId ''approved'' db))) promoId = Some ex'
         \<and> pr_status ex' = Val ''active''
         \<and> pr_validFrom ex' = (if truthy (pr_validFrom ex) then pr_validFrom ex else Val now)
         \<and> pr_validTo ex' = (if truthy (pr_validTo ex) then pr_validTo ex else Val (plus_days now 100))"
  proof -
    from h have h1: "getDoc (partners db) partnerId = Some pd" and h2: "truthy_str (p_promoCode pd)"
      and h3: "p_promoId pd = Val promoId" and h4: "promoId \<noteq> []"
      and h5: "getDoc (promoCodes db) promoId = Some ex"
      by blast+
    show ?thesis by (rule partner_activation [OF refl h1 h2 h3 h4 h5])
  qed
qed

theorem activation_window_witness:
  "map_option (\<lambda>d. (rc_validFrom d, rc_validTo d))
     (getDoc (referralCodes (snd (ambassador_updateStatus 5000 ''amb1'' ''approved'' db0))) ''ref1'')
     = Some (Val 1000, Val 9000)
 \<and> map_option (\<lambda>d. (rc_validFrom d, rc_validTo d))
     (getDoc (referralCodes (snd (ambassador_updateStatus 5000 ''amb1'' ''approved'' db_pending))) ''ref1'')
     = Some (Val 5000, Val 8640005000)
 \<and> map_option (\<lambda>d. (rc_validFrom d, rc_validTo d))
     (getDoc (referralCodes (snd (ambassador_updateStatus 6000 ''amb1'' ''approved''
        (snd (ambassador_updateStatus 5000 ''amb1'' ''approved'' db_pending))))) ''ref1'')
     = Some (Val 5000, Val 8640005000)
 \<and> map_option (\<lambda>d. (pr_validFrom d, pr_validTo d))
     (getDoc (promoCodes (snd (partner_updateStatus 5000 ''par1'' ''approved'' db0))) ''promo1'')
     = Some (Val 1000, Val 9000)
 \<and> map_option (\<lambda>d. (pr_validFrom d, pr_validTo d))
     (getDoc (promoCodes (snd (partner_updateStatus 5000 ''par1'' ''approved'' db_pending))) ''promo1'')
     = Some (Val 5000, Val 8640005000)"
proof -
  let ?pending = "referral0\<lparr>rc_status := Val ''pending'', rc_validFrom := Null, rc_validTo := Null\<rparr>"
  let ?set = "referral0\<lparr>rc_status := Val ''active'', rc_validFrom := Val 5000, rc_validTo := Val 8640005000\<rparr>"
  let ?ppending = "promo0\<lparr>pr_status := Val ''pending'', pr_validFrom := Null, pr_validTo := Null\<rparr>"
  have h0: "''amb1'' \<noteq> [] \<and> getDoc (ambassadors db0) ''amb1'' = Some ambassador0
      \<and> query_eq rc_ambassadorId ''amb1'' (referralCodes db0) = (''ref1'', referral0) # []
      \<and> distinct (map fst (referralCodes db0))"
    by (simp add: db0_def referral0_def query_eq_def getDoc_def)
  have hp: "''amb1'' \<noteq> [] \<and> getDoc (ambassadors db_pending) ''amb1'' = Some ambassador0
      \<and> query_eq rc_ambassadorId ''amb1'' (referralCodes db_pending) = (''ref1'', ?pending) # []
      \<and> distinct (map fst (referralCodes db_pending))"
    by (simp add: db_pending_def db0_def referral0_def query_eq_def getDoc_def)
  have ev: "getDoc (referralCodes (snd (ambassador_updateStatus 5000 ''amb1'' ''approved'' db_pending))) ''ref1''
      = Some ?set"
    by (simp add: ambassador_updateStatus_def db_pending_def db0_def referral0_def query_eq_def
          getDoc_def js_defs plus_days_def Let_def)
  have hq: "getDoc (partners db0) ''par1'' = Some partner0 \<and> truthy_str (p_promoCode partner0)
      \<and> p_promoId partner0 = Val ''promo1'' \<and> ''promo1'' \<noteq> []
      \<and> getDoc (promoCodes db0) ''promo1'' = Some promo0"
    by (simp add: db0_def partner0_def getDoc_def truthy_str_def)
  have hr: "getDoc (partners db_pending) ''par1'' = Some partner0 \<and> truthy_str (p_promoCode partner0)
      \<and> p_promoId partner0 = Val ''promo1'' \<and> ''promo1'' \<noteq> []
      \<and> getDoc (promoCodes db_pending) ''promo1'' = Some ?ppending"
    by (simp add: db_pending_def db0_def partner0_def getDoc_def truthy_str_def)
  have w1: "map_option (\<lambda>d. (rc_validFrom d, rc_validTo d))
     (getDoc (referralCodes (snd (ambassador_updateStatus 5000 ''amb1'' ''approved'' db0))) ''ref1'')
     = Some (Val 1000, Val 9000)"
    using activation_window [where userId = "''amb1''" and db = db0 and a = ambassador0
        and rid = "''ref1''" and rd = referral0 and rest = "[]" and now = 5000,
        THEN conjunct1, THEN mp, OF h0]
    by (auto simp: referral0_def)
  have w2: "map_option (\<lambda>d. (rc_validFrom d, rc_validTo d))
     (getDoc (referralCodes (snd (ambassador_updateStatus 5000 ''amb1'' ''approved'' db_pending))) ''ref1'')
     = Some (Val 5000, Val 8640005000)"
    using activation_window [where userId = "''amb1''" and db = db_pending and a = ambassador0
        and rid = "''ref1''" and rd = ?pending and rest = "[]" and now = 5000,
        THEN conjunct1, THEN mp, OF hp]
    by (auto simp: plus_days_def truthy_def)
  have h2: "''amb1'' \<noteq> [] \<and> getDoc (ambassadors db_pending) ''amb1'' = Some ambassador0
      \<and> query_eq rc_ambassadorId ''amb1'' (referralCodes db_pending) = (''ref1'', ?pending) # []
      \<and> distinct (map fst (referralCodes db_pending))
      \<and> getDoc (referralCodes (snd (ambassador_updateStatus 5000 ''amb1'' ''approved'' db_pending))) ''ref1''
           = Some ?set
      \<and> rc_validTo ?set = Val 8640005000 \<and> (6000::int) \<le> 8640005000"
    using hp ev by simp
  have w3: "map_option (\<lambda>d. (rc_validFrom d, rc_validTo d))
     (getDoc (referralCodes (snd (ambassador_updateStatus 6000 ''amb1'' ''approved''
        (snd (ambassador_updateStatus 5000 ''amb1'' ''approved'' db_pending))))) ''ref1'')
     = Some (Val 5000, Val 8640005000)"
    using activation_window [where userId = "''amb1''" and db = db_pending and a = ambassador0
        and rid = "''ref1''" and rd = ?pending and rest = "[]" and now = 5000 and ?now2.0 = 6000
        and ?rd1.0 = ?set and ?t1.0 = 8640005000,
        THEN conjunct2, THEN conjunct1, THEN mp, OF h2]
    by auto
  have w4: "map_option (\<lambda>d. (pr_validFrom d, pr_validTo d))
     (getDoc (promoCodes (snd (partner_updateStatus 5000 ''par1'' ''approved'' db0))) ''promo1'')
     = Some (Val 1000, Val 9000)"
    using activation_window [where db = db0 and partnerId = "''par1''" and pd = partner0
        and promoId = "''promo1''" and ex = promo0 and now = 5000,
        THEN conjunct2, THEN conjunct2, THEN mp, OF hq]
    by (auto simp: promo0_def truthy_def)
  have w5: "map_option (\<lambda>d. (pr_validFrom d, pr_validTo d))
     (getDoc (promoCodes (snd (partner_updateStatus 5000 ''par1'' ''approved'' db_pending))) ''promo1'')
     = Some (Val 5000, Val 8640005000)"
    using activation_window [where db = db_pending and partnerId = "''par1''" and pd = partner0
        and promoId = "''promo1''" and ex = ?ppending and now = 5000,
        THEN conjunct2, THEN conjunct2, THEN mp, OF hr]
    by (auto simp: promo0_def truthy_def plus_days_def)
  show ?thesis using w1 w2 w3 w4 w5 by blast
qed

section \<open>The revenue split of a redemption\<close>







end
